theory Spec2Isabelle
  imports Main
begin

section \<open>Python text primitives used by polarity\_app.py\<close>

text \<open>
  A Python \<open>str\<close> is modelled as a \<open>string\<close>: one \<open>char\<close> per code point, for the code
  points 0 to 255. That is every text the Latin-1 decoding of the reader can yield, and
  the UTF-8 texts that stay in that range. The tables below are the ones of Python's
  \<open>str.isspace\<close>, \<open>str.lower\<close>, \<open>str.upper\<close> and \<open>int\<close> on that range.
\<close>

definition whitespace :: string where
  "whitespace = [CHR 0x09, CHR 0x0A, CHR 0x0B, CHR 0x0C, CHR 0x0D,
                 CHR 0x1C, CHR 0x1D, CHR 0x1E, CHR 0x1F, CHR 0x20, CHR 0x85, CHR 0xA0]"

definition is_space :: "char \<Rightarrow> bool" where
  "is_space c = (c \<in> set whitespace)"

definition lstrip :: "string \<Rightarrow> string" where
  "lstrip s = dropWhile is_space s"

definition rstrip :: "string \<Rightarrow> string" where
  "rstrip s = rev (dropWhile is_space (rev s))"

definition strip :: "string \<Rightarrow> string" where
  \<comment> \<open>\<open>s.strip()\<close>\<close>
  "strip s = rstrip (lstrip s)"

definition rstrip_chars :: "string \<Rightarrow> string \<Rightarrow> string" where
  \<comment> \<open>\<open>s.rstrip(chars)\<close>: every trailing character that is in \<open>chars\<close> goes\<close>
  "rstrip_chars chars s = rev (dropWhile (\<lambda>c. c \<in> set chars) (rev s))"

definition strip_chars :: "string \<Rightarrow> string \<Rightarrow> string" where
  \<comment> \<open>\<open>s.strip(chars)\<close>\<close>
  "strip_chars chars s = rstrip_chars chars (dropWhile (\<lambda>c. c \<in> set chars) s)"

definition remove_char :: "char \<Rightarrow> string \<Rightarrow> string" where
  \<comment> \<open>\<open>s.replace(c, "")\<close> for a single character \<open>c\<close>\<close>
  "remove_char c s = filter (\<lambda>d. d \<noteq> c) s"

definition upper_letters :: string where
  "upper_letters = ''ABCDEFGHIJKLMNOPQRSTUVWXYZ'' @
     [CHR 0xC0, CHR 0xC1, CHR 0xC2, CHR 0xC3, CHR 0xC4, CHR 0xC5, CHR 0xC6, CHR 0xC7,
      CHR 0xC8, CHR 0xC9, CHR 0xCA, CHR 0xCB, CHR 0xCC, CHR 0xCD, CHR 0xCE, CHR 0xCF,
      CHR 0xD0, CHR 0xD1, CHR 0xD2, CHR 0xD3, CHR 0xD4, CHR 0xD5, CHR 0xD6,
      CHR 0xD8, CHR 0xD9, CHR 0xDA, CHR 0xDB, CHR 0xDC, CHR 0xDD, CHR 0xDE]"

definition lower_letters :: string where
  "lower_letters = ''abcdefghijklmnopqrstuvwxyz'' @
     [CHR 0xE0, CHR 0xE1, CHR 0xE2, CHR 0xE3, CHR 0xE4, CHR 0xE5, CHR 0xE6, CHR 0xE7,
      CHR 0xE8, CHR 0xE9, CHR 0xEA, CHR 0xEB, CHR 0xEC, CHR 0xED, CHR 0xEE, CHR 0xEF,
      CHR 0xF0, CHR 0xF1, CHR 0xF2, CHR 0xF3, CHR 0xF4, CHR 0xF5, CHR 0xF6,
      CHR 0xF8, CHR 0xF9, CHR 0xFA, CHR 0xFB, CHR 0xFC, CHR 0xFD, CHR 0xFE]"

definition lower_char :: "char \<Rightarrow> char" where
  "lower_char c = (case map_of (zip upper_letters lower_letters) c of Some d \<Rightarrow> d | None \<Rightarrow> c)"

definition py_lower :: "string \<Rightarrow> string" where
  \<comment> \<open>\<open>s.lower()\<close>\<close>
  "py_lower s = map lower_char s"

definition upper_char :: "char \<Rightarrow> string" where
  \<comment> \<open>The sharp s (0xDF) becomes two letters. The micro sign (0xB5) and the y with
      diaeresis (0xFF) have their capital beyond code point 255; they are kept here, and
      neither they nor their capitals are an underscore or an ASCII letter.\<close>
  "upper_char c =
     (if c = CHR 0xDF then ''SS''
      else case map_of (zip lower_letters upper_letters) c of Some d \<Rightarrow> [d] | None \<Rightarrow> [c])"

definition py_upper :: "string \<Rightarrow> string" where
  \<comment> \<open>\<open>s.upper()\<close>\<close>
  "py_upper s = concat (map upper_char s)"

definition is_digit :: "char \<Rightarrow> bool" where
  "is_digit c = (c \<in> set ''0123456789'')"

definition digit_val :: "char \<Rightarrow> int" where
  "digit_val c = (case map_of (zip ''0123456789'' [0, 1, 2, 3, 4, 5, 6, 7, 8, 9]) c of
                    Some d \<Rightarrow> d | None \<Rightarrow> 0)"

fun digits_ok :: "string \<Rightarrow> bool" where
  \<comment> \<open>the digit part of a decimal literal: digits, with single underscores between digits\<close>
  "digits_ok [] = False"
| "digits_ok [c] = is_digit c"
| "digits_ok (c # d # cs) =
     (is_digit c \<and> (if d = CHR ''_'' then digits_ok cs else digits_ok (d # cs)))"

definition digits_value :: "string \<Rightarrow> int" where
  "digits_value ds = foldl (\<lambda>a c. 10 * a + digit_val c) 0 (filter is_digit ds)"

definition int_max_str_digits :: nat where
  \<comment> \<open>\<open>sys.get_int_max_str_digits()\<close>: the interpreter's default, which the program does
      not change\<close>
  "int_max_str_digits = 4300"

definition py_int :: "string \<Rightarrow> int option" where
  \<comment> \<open>\<open>int(s)\<close> in base 10; \<open>None\<close> is the \<open>ValueError\<close>, raised for a text that is not a
      decimal literal and for one with more digits than the interpreter's limit (the sign,
      the underscores and the surrounding blanks are not counted, leading zeros are)\<close>
  "py_int s =
     (let t = strip s;
          neg = (t \<noteq> [] \<and> hd t = CHR ''-'');
          body = (if t \<noteq> [] \<and> (hd t = CHR ''-'' \<or> hd t = CHR ''+'') then tl t else t)
      in if digits_ok body \<and> length (filter is_digit body) \<le> int_max_str_digits
         then Some (if neg then - digits_value body else digits_value body)
         else None)"

section \<open>Errors and records\<close>

datatype error =
    PolarityAppError string  \<comment> \<open>the application's error, with its message\<close>
  | UnexpectedError string   \<comment> \<open>any other exception, caught by the caller as unexpected\<close>

type_synonym feeder_row = "string \<rightharpoonup> string"
type_synonym report_row = "string \<rightharpoonup> string"

definition field :: "(string \<rightharpoonup> string) \<Rightarrow> string \<Rightarrow> string" where
  \<comment> \<open>\<open>(row.get(key) or "")\<close>\<close>
  "field row key = (case row key of None \<Rightarrow> [] | Some v \<Rightarrow> v)"

section \<open>Data preparation\<close>

definition map_side :: "string \<Rightarrow> string" where
  \<comment> \<open>the \<open>if side == "1" ... elif side == "0" ... else\<close> chain, written out in both
      \<open>_detect_aimex\<close> and \<open>_build_slot_string\<close>\<close>
  "map_side side = (if side = ''1'' then ''2'' else if side = ''0'' then ''1'' else side)"

fun detect_aimex_loop :: "bool \<Rightarrow> feeder_row list \<Rightarrow> bool" where
  "detect_aimex_loop aimex [] = aimex"
| "detect_aimex_loop aimex (row # rows) =
     (let side = strip (field row ''SideNo'');
          mapped = map_side side
      in detect_aimex_loop (if mapped = ''2'' then True else aimex) rows)"

definition detect_aimex :: "feeder_row list \<Rightarrow> bool" where
  "detect_aimex rows = detect_aimex_loop False rows"

definition build_slot_string :: "feeder_row \<Rightarrow> bool \<Rightarrow> string" where
  "build_slot_string row aimex =
     (let module = strip (field row ''ModuleNumber'');
          side = strip (field row ''SideNo'');
          location = strip (remove_char (CHR 0x27) (field row ''Location''));
          mapped_side = map_side side
      in if aimex \<and> mapped_side \<noteq> []
         then strip_chars ''-'' (module @ ''-'' @ mapped_side @ ''-'' @ location)
         else strip_chars ''-'' (module @ ''-'' @ location))"

definition qty_val :: "feeder_row \<Rightarrow> int" where
  \<comment> \<open>the \<open>try: int(qty_str) if qty_str else 0; except ValueError: 0\<close> of the filter\<close>
  "qty_val row =
     (let qty_str = strip (field row ''QTY'')
      in if qty_str \<noteq> [] then (case py_int qty_str of Some n \<Rightarrow> n | None \<Rightarrow> 0) else 0)"

fun filter_loop :: "feeder_row list \<Rightarrow> feeder_row list \<Rightarrow> feeder_row list" where
  "filter_loop filtered_rows [] = filtered_rows"
| "filter_loop filtered_rows (row # rows) =
     filter_loop (if qty_val row \<noteq> 0 then filtered_rows @ [row] else filtered_rows) rows"

definition output_row :: "feeder_row \<Rightarrow> bool \<Rightarrow> report_row" where
  \<comment> \<open>the body of the second loop of \<open>_build_output_rows\<close>; \<open>slot_string\<close> is computed
      and not used, as in the source\<close>
  "output_row row aimex =
     (let part_number = strip (field row ''PartNumber'');
          part_comment = strip (field row ''PartComment'');
          package_name = strip (field row ''PackageName'');
          part_shape = strip (field row ''PartShapeName'');
          slot_string = build_slot_string row aimex;
          module_only = strip (field row ''ModuleNumber'');
          location_only = strip (field row ''Location'')
      in [''Modulo'' \<mapsto> module_only,
          ''Slot'' \<mapsto> location_only,
          ''Part Number'' \<mapsto> part_number,
          ''Package'' \<mapsto> package_name,
          ''Program's Polarities'' \<mapsto> [],
          ''Package's polarities'' \<mapsto> [],
          ''Name of shape'' \<mapsto> part_shape,
          ''Coments or presentations changes'' \<mapsto> part_comment])"

fun output_loop :: "bool \<Rightarrow> report_row list \<Rightarrow> feeder_row list \<Rightarrow> report_row list" where
  "output_loop aimex output_rows [] = output_rows"
| "output_loop aimex output_rows (row # rows) =
     output_loop aimex (output_rows @ [output_row row aimex]) rows"

definition no_data_msg :: string where
  "no_data_msg = ''FeederSetup.csv does not contain data.''"

definition no_rows_left_msg :: string where
  "no_rows_left_msg = ''After filtering QTY=0 there are no rows left to process.''"

definition build_output_rows :: "feeder_row list \<Rightarrow> error + report_row list" where
  "build_output_rows feeder_rows =
     (if feeder_rows = [] then Inl (PolarityAppError no_data_msg)
      else let filtered_rows = filter_loop [] feeder_rows
           in if filtered_rows = [] then Inl (PolarityAppError no_rows_left_msg)
              else let aimex = detect_aimex filtered_rows
                   in Inr (output_loop aimex [] filtered_rows))"

section \<open>The environment of a run\<close>

text \<open>
  What the program reads from outside is an explicit environment: the answers of the file
  system, the outcome of reading \<open>FeederSetup.csv\<close> under each encoding (after
  \<open>csv.reader\<close> has split it into rows of cells), and the module globals that the import
  block at the top of the file sets. The IMAGES directory is a listing of entries, each a
  name and whether it is a regular file; a part number is taken as a plain file name there.
  The file system may also refuse an answer: \<open>is_file()\<close> on a candidate raises
  \<open>OSError\<close> in a directory that cannot be searched, and \<open>iterdir()\<close> raises it in
  one that cannot be listed. The directory itself has been probed and created by \<open>run\<close>
  before it is used, so \<open>exists()\<close> on it answers. The spreadsheet library is part of
  the environment as well: it may refuse a text for a cell (it raises for one with a
  control character), fail to load an image, and fail to save, with an \<open>OSError\<close> or
  with another exception.
\<close>

datatype encoding = Utf8Sig | Latin1

datatype save_result =
    Saved                        \<comment> \<open>\<open>wb.save\<close> returned\<close>
  | SaveOSError string           \<comment> \<open>\<open>wb.save\<close> raised \<open>OSError\<close>\<close>
  | SaveOtherError string        \<comment> \<open>\<open>wb.save\<close> raised another exception\<close>

datatype read_result =
    DecodeError                  \<comment> \<open>a \<open>UnicodeError\<close> while reading under this encoding (Latin-1
                                     decodes every byte sequence, so no file gives this
                                     answer under it)\<close>
  | OtherError string            \<comment> \<open>any other exception of the read\<close>
  | Rows "string list list"      \<comment> \<open>\<open>list(reader)\<close>\<close>

record env =
  root_is_dir :: bool
  folder_name :: string
  mkdir_error :: "string option"
  feeder_is_file :: bool
  read_csv :: "encoding \<Rightarrow> read_result"
  Workbook_avail :: bool
  XLImage_avail :: bool
  images_dir :: "(string \<times> bool) list option"
  probe_error :: "string \<Rightarrow> string option"
  listing_error :: "string option"
  image_error :: "string \<Rightarrow> string option"
  cell_error :: "string \<Rightarrow> string option"
  save :: save_result
  output_path_arg :: "string option"
  default_output_path :: string


record processor =
  job_name :: string
  revision :: string
  side :: string
  line_name :: string

definition new_processor :: processor where
  "new_processor = \<lparr>job_name = [], revision = [], side = [], line_name = []\<rparr>"

section \<open>Reading FeederSetup.csv\<close>

definition REQUIRED_FEEDER_COLUMNS :: "string list" where
  "REQUIRED_FEEDER_COLUMNS =
     [''ModuleNumber'', ''SideNo'', ''Location'', ''PartNumber'', ''PartComment'',
      ''PackageName'', ''PartShapeName'', ''FeederType'', ''TapeWidth'', ''FeedPitch'', ''QTY'']"

fun join :: "string \<Rightarrow> string list \<Rightarrow> string" where
  \<comment> \<open>\<open>sep.join(xs)\<close>\<close>
  "join sep [] = []"
| "join sep [x] = x"
| "join sep (x # y # ys) = x @ sep @ join sep (y # ys)"

definition missing_columns_msg :: "string list \<Rightarrow> string" where
  "missing_columns_msg missing =
     ''Required columns are missing in FeederSetup.csv: '' @ join '', '' missing"

definition validate_headers :: "string list \<Rightarrow> error option" where
  \<comment> \<open>\<open>None\<close>: nothing raised\<close>
  "validate_headers headers =
     (let missing = filter (\<lambda>h. h \<notin> set headers) REQUIRED_FEEDER_COLUMNS
      in if missing \<noteq> [] then Some (PolarityAppError (missing_columns_msg missing)) else None)"

definition norm :: "string \<Rightarrow> string" where
  \<comment> \<open>the local \<open>_norm\<close>: \<open>(s or "").strip().lower().rstrip(":")\<close>\<close>
  "norm s = rstrip_chars '':'' (py_lower (strip s))"

fun first_index :: "('a \<Rightarrow> bool) \<Rightarrow> nat \<Rightarrow> 'a list \<Rightarrow> nat option" where
  \<comment> \<open>\<open>next((i for i, h in enumerate(xs) if P(h)), None)\<close>, counting from \<open>i\<close>\<close>
  "first_index P i [] = None"
| "first_index P i (x # xs) = (if P x then Some i else first_index P (Suc i) xs)"

definition extract_line_name :: "string list \<Rightarrow> string list \<Rightarrow> string \<Rightarrow> string" where
  \<comment> \<open>the \<open>try\<close> block on the two job rows; the result is the new \<open>self.line_name\<close>.
      No operation of the block raises on rows of strings, so its \<open>except\<close> has no branch here.\<close>
  "extract_line_name row0 row1 prior =
     (let job_headers = map strip row0;
          job_values = row1;
          idx = first_index (\<lambda>h. norm h = ''line'') 0 job_headers
      in if (case idx of None \<Rightarrow> False | Some i \<Rightarrow> i < length job_values)
         then strip (job_values ! the idx)
         else if length job_values \<ge> 8 then strip (job_values ! 7)
         else prior)"

definition row_dict :: "string list \<Rightarrow> string list \<Rightarrow> feeder_row" where
  \<comment> \<open>\<open>{h: (r[i].strip() if i < len(r) else "") for i, h in enumerate(headers)}\<close>\<close>
  "row_dict headers r =
     fold (\<lambda>(i, h) d. d(h \<mapsto> (if i < length r then strip (r ! i) else []))) (enumerate 0 headers) Map.empty"

fun data_loop :: "string list \<Rightarrow> feeder_row list \<Rightarrow> string list list \<Rightarrow> feeder_row list" where
  "data_loop headers result [] = result"
| "data_loop headers result (r # data_rows) =
     (if \<not> list_ex (\<lambda>cell. strip cell \<noteq> []) r then data_loop headers result data_rows
      else data_loop headers (result @ [row_dict headers r]) data_rows)"

definition too_few_rows_msg :: string where
  "too_few_rows_msg = ''FeederSetup.csv does not have the expected format (too few rows).''"

fun parse_rows :: "processor \<Rightarrow> string list list \<Rightarrow> (error + feeder_row list) \<times> processor" where
  \<comment> \<open>the body of the \<open>with\<close> block, once the rows are read\<close>
  "parse_rows p (row0 # row1 # row2 # data_rows) =
     (let p' = p\<lparr>line_name := extract_line_name row0 row1 (line_name p)\<rparr>;
          headers = map strip row2
      in case validate_headers headers of
           Some e \<Rightarrow> (Inl e, p')
         | None \<Rightarrow> (Inr (data_loop headers [] data_rows), p'))"
| "parse_rows p rows = (Inl (PolarityAppError too_few_rows_msg), p)"

fun open_csv_loop :: "env \<Rightarrow> processor \<Rightarrow> encoding list \<Rightarrow> (error + feeder_row list) \<times> processor" where
  \<comment> \<open>the \<open>for encoding in ("utf-8-sig", "latin-1")\<close> loop. A \<open>UnicodeError\<close> goes to
      \<open>continue\<close>; every other path through the \<open>try\<close> returns or raises. So the
      \<open>if last_exc is not None: raise PolarityAppError(... encoding problems ...)\<close> that follows
      the \<open>try\<close> inside the loop is never reached, and after the last encoding the function
      returns the empty list.\<close>
  "open_csv_loop env p [] = (Inr [], p)"
| "open_csv_loop env p (encoding # encodings) =
     (case read_csv env encoding of
        DecodeError \<Rightarrow> open_csv_loop env p encodings
      | OtherError exc \<Rightarrow> (Inl (UnexpectedError exc), p)
      | Rows rows \<Rightarrow> parse_rows p rows)"

definition not_found_msg :: string where
  "not_found_msg = ''Required file not found: FeederSetup.csv''"

definition encoding_msg :: string where
  "encoding_msg = ''FeederSetup.csv could not be read due to encoding problems (UTF-8/Latin-1).''"

definition open_csv :: "env \<Rightarrow> processor \<Rightarrow> (error + feeder_row list) \<times> processor" where
  "open_csv env p =
     (if \<not> feeder_is_file env then (Inl (PolarityAppError not_found_msg), p)
      else open_csv_loop env p [Utf8Sig, Latin1])"

section \<open>Writing the workbook\<close>

text \<open>
  The worksheet of the model holds what the report's content depends on: the text that the
  writer gives to each cell and the fill of the cell, by row and column counted from 1, and
  the images added, each with the row it is anchored in (always column E). Fonts, borders,
  alignment, merged ranges, widths, the centring offsets and the print setup are left out.
  The sheet is built in memory, so a text that the library refuses ends the run with
  nothing written, whatever was set before it; the writer of the model looks for the first
  such text before it builds the sheet.
\<close>

record cell =
  cell_value :: string
  cell_fill :: "string option"

record worksheet =
  cells :: "(nat \<times> nat) \<rightharpoonup> cell"
  images :: "(nat \<times> string) list"

datatype output_file =
    NotWritten               \<comment> \<open>\<open>wb.save\<close> was not reached\<close>
  | WriteFailed              \<comment> \<open>\<open>wb.save\<close> raised\<close>
  | Written worksheet        \<comment> \<open>\<open>wb.save\<close> wrote the workbook\<close>

record process_result =
  output_path :: string
  rows_written :: nat
  images_found :: nat

definition OUTPUT_COLUMNS :: "string list" where
  "OUTPUT_COLUMNS =
     [''Modulo'', ''Slot'', ''Part Number'', ''Package'', ''Program's Polarities'',
      ''Package's polarities'', ''Name of shape'', ''Coments or presentations changes'']"

definition info_labels :: "string list" where
  "info_labels = [''Model'', ''Line'', ''Revision'', ''Machine Programmer'', ''Quality'', ''Fecha'']"

definition start_row :: nat where
  "start_row = 3"

definition header_row :: nat where
  "header_row = start_row + length info_labels + 1"

definition data_start_row :: nat where
  "data_start_row = header_row + 1"

definition passive_fill :: string where
  "passive_fill = ''FFF2CC''"

definition set_cell :: "nat \<Rightarrow> nat \<Rightarrow> string \<Rightarrow> string option \<Rightarrow> worksheet \<Rightarrow> worksheet" where
  "set_cell r c v f ws = ws\<lparr>cells := (cells ws)((r, c) \<mapsto> \<lparr>cell_value = v, cell_fill = f\<rparr>)\<rparr>"

definition or_else :: "string \<Rightarrow> string \<Rightarrow> string" where
  \<comment> \<open>\<open>a or b\<close> on strings\<close>
  "or_else a b = (if a \<noteq> [] then a else b)"

definition info_values :: "processor \<Rightarrow> string \<rightharpoonup> string" where
  "info_values p =
     [''Model'' \<mapsto> or_else (job_name p) [],
      ''Line'' \<mapsto> or_else (line_name p) (or_else (side p) []),
      ''Revision'' \<mapsto> or_else (revision p) []]"

definition write_form :: "processor \<Rightarrow> worksheet \<Rightarrow> worksheet" where
  \<comment> \<open>the title, the labels of the form in column A, and its values in column B\<close>
  "write_form p ws =
     (let ws1 = set_cell 1 1 ''Polarity Check'' None ws;
          ws2 = fold (\<lambda>(i, label) w. set_cell (start_row + i) 1 label None w)
                  (enumerate 0 info_labels) ws1
      in fold (\<lambda>(i, label) w.
                 case info_values p label of
                   None \<Rightarrow> w
                 | Some val \<Rightarrow> if val \<noteq> [] then set_cell (start_row + i) 2 val None w else w)
           (enumerate 0 info_labels) ws2)"

definition write_header :: "worksheet \<Rightarrow> worksheet" where
  "write_header ws =
     fold (\<lambda>(idx, col_name) w. set_cell header_row idx col_name None w)
       (enumerate 1 OUTPUT_COLUMNS) ws"

definition starts_with :: "string \<Rightarrow> string \<Rightarrow> bool" where
  \<comment> \<open>\<open>s.startswith(prefix)\<close>\<close>
  "starts_with prefix s = (take (length prefix) s = prefix)"

definition is_passive :: "report_row \<Rightarrow> bool" where
  "is_passive row =
     (let shape_name = py_upper (strip (field row ''Name of shape''))
      in if CHR ''_'' \<in> set shape_name
         then (let after_underscore = tl (dropWhile (\<lambda>c. c \<noteq> CHR ''_'') shape_name)
               in if after_underscore \<noteq> []
                  then (if \<not> starts_with ''CON'' after_underscore
                        then (let shape_type = hd after_underscore
                              in shape_type = CHR ''C'' \<or> shape_type = CHR ''R'')
                        else False)
                  else False)
         else False)"

definition write_data_row :: "nat \<Rightarrow> report_row \<Rightarrow> worksheet \<Rightarrow> worksheet" where
  \<comment> \<open>the inner loop over the columns; \<open>row.get(col_name, "")\<close> is the value\<close>
  "write_data_row r_idx row ws =
     fold (\<lambda>(c_idx, col_name) w.
             set_cell r_idx c_idx (case row col_name of None \<Rightarrow> [] | Some val \<Rightarrow> val)
               (if is_passive row \<and>
                   (col_name = ''Name of shape'' \<or> col_name = ''Coments or presentations changes'')
                then Some passive_fill else None) w)
       (enumerate 1 OUTPUT_COLUMNS) ws"

definition write_table :: "report_row list \<Rightarrow> worksheet \<Rightarrow> worksheet" where
  "write_table rows ws =
     fold (\<lambda>(r_idx, row) w. write_data_row r_idx row w) (enumerate data_start_row rows) ws"

definition is_file :: "env \<Rightarrow> string \<Rightarrow> bool" where
  \<comment> \<open>\<open>(self.images_dir / name).is_file()\<close>\<close>
  "is_file env name =
     (case images_dir env of None \<Rightarrow> False | Some entries \<Rightarrow> (name, True) \<in> set entries)"

fun probe_candidates :: "env \<Rightarrow> string list \<Rightarrow> error + string option" where
  \<comment> \<open>the \<open>for ext in ...: if candidate.is_file(): return candidate\<close> loop;
      \<open>is_file()\<close> may raise\<close>
  "probe_candidates env [] = Inr None"
| "probe_candidates env (candidate # candidates) =
     (case probe_error env candidate of
        Some exc \<Rightarrow> Inl (UnexpectedError exc)
      | None \<Rightarrow>
          if is_file env candidate then Inr (Some candidate)
          else probe_candidates env candidates)"

definition find_image_for_part :: "env \<Rightarrow> string \<Rightarrow> error + string option" where
  "find_image_for_part env part_number =
     (let part_number = strip part_number
      in if part_number = [] \<or> images_dir env = None then Inr None
         else probe_candidates env
                (map (\<lambda>ext. part_number @ ext) [''.bmp'', ''.png'', ''.jpg'', ''.jpeg'']))"

definition stem :: "string \<Rightarrow> string" where
  \<comment> \<open>\<open>p.stem\<close>: the name without its last suffix\<close>
  "stem name =
     (let suffix = takeWhile (\<lambda>c. c \<noteq> CHR ''.'') (rev name)
      in if length suffix < length name \<and> suffix \<noteq> [] \<and> Suc (length suffix) < length name
         then take (length name - Suc (length suffix)) name
         else name)"

definition collect_image_stems :: "env \<Rightarrow> error + string list" where
  \<comment> \<open>\<open>iterdir()\<close> may raise\<close>
  "collect_image_stems env =
     (case images_dir env of
        None \<Rightarrow> Inr []
      | Some entries \<Rightarrow>
          (case listing_error env of
             Some exc \<Rightarrow> Inl (UnexpectedError exc)
           | None \<Rightarrow> Inr (map (\<lambda>p. stem (fst p)) (filter (\<lambda>p. snd p) entries))))"

definition openpyxl_msg :: string where
  "openpyxl_msg = ''The 'openpyxl' library is not installed. Install it with: pip install openpyxl''"

definition pillow_msg :: string where
  "pillow_msg = ''Pillow is required to insert images into Excel. Install it with: pip install pillow''"

definition save_msg :: "string \<Rightarrow> string" where
  "save_msg exc = ''The Excel file could not be saved: '' @ exc"

definition ensure_workbook_available :: "env \<Rightarrow> error option" where
  "ensure_workbook_available env =
     (if \<not> Workbook_avail env then Some (PolarityAppError openpyxl_msg) else None)"

definition ensure_image_support :: "env \<Rightarrow> error option" where
  "ensure_image_support env =
     (if \<not> XLImage_avail env then Some (PolarityAppError pillow_msg) else None)"

fun embed_images :: "env \<Rightarrow> nat \<Rightarrow> report_row list \<Rightarrow> worksheet \<Rightarrow> error + worksheet" where
  \<comment> \<open>the loop over \<open>enumerate(rows)\<close>; \<open>XLImage(str(image_path))\<close> may raise\<close>
  "embed_images env excel_row [] ws = Inr ws"
| "embed_images env excel_row (row # rows) ws =
     (let part_number = strip (field row ''Part Number'')
      in case find_image_for_part env part_number of
           Inl e \<Rightarrow> Inl e
         | Inr None \<Rightarrow> embed_images env (Suc excel_row) rows ws
         | Inr (Some image_path) \<Rightarrow>
             (case image_error env image_path of
                Some exc \<Rightarrow> Inl (UnexpectedError exc)
              | None \<Rightarrow>
                  embed_images env (Suc excel_row) rows
                    (ws\<lparr>images := images ws @ [(excel_row, image_path)]\<rparr>)))"

definition insert_images :: "env \<Rightarrow> report_row list \<Rightarrow> worksheet \<Rightarrow> error + worksheet" where
  \<comment> \<open>\<open>if rows: self._ensure_image_support(); for offset, row in enumerate(rows): ...\<close>\<close>
  "insert_images env rows ws =
     (if rows \<noteq> []
      then (case ensure_image_support env of
              Some e \<Rightarrow> Inl e
            | None \<Rightarrow> embed_images env data_start_row rows ws)
      else Inr ws)"

definition written_values :: "processor \<Rightarrow> report_row list \<Rightarrow> string list" where
  \<comment> \<open>the texts given to cells, in the order in which the writer sets them: the title,
      the labels of the form, its values, the header of the table, the rows\<close>
  "written_values p rows =
     ''Polarity Check'' # info_labels @
     concat (map (\<lambda>label. case info_values p label of
                                None \<Rightarrow> []
                              | Some val \<Rightarrow> if val \<noteq> [] then [val] else []) info_labels) @
     OUTPUT_COLUMNS @
     concat (map (\<lambda>row. map (\<lambda>col_name. case row col_name of None \<Rightarrow> [] | Some val \<Rightarrow> val)
                          OUTPUT_COLUMNS) rows)"

fun first_refused :: "env \<Rightarrow> string list \<Rightarrow> string option" where
  "first_refused env [] = None"
| "first_refused env (val # vals) =
     (case cell_error env val of Some exc \<Rightarrow> Some exc | None \<Rightarrow> first_refused env vals)"

definition write_excel ::
  "env \<Rightarrow> processor \<Rightarrow> report_row list \<Rightarrow> (error + process_result) \<times> output_file" where
  \<comment> \<open>\<open>wb.save\<close> is under \<open>except OSError\<close>; the images are counted after it, outside
      its \<open>try\<close>: a failure there leaves the workbook written\<close>
  "write_excel env p rows =
     (case ensure_workbook_available env of
        Some e \<Rightarrow> (Inl e, NotWritten)
      | None \<Rightarrow>
          (case first_refused env (written_values p rows) of
             Some exc \<Rightarrow> (Inl (UnexpectedError exc), NotWritten)
           | None \<Rightarrow>
               (let ws = write_table rows
                           (write_header (write_form p \<lparr>cells = Map.empty, images = []\<rparr>))
                in case insert_images env rows ws of
                     Inl e \<Rightarrow> (Inl e, NotWritten)
                   | Inr ws' \<Rightarrow>
                       (case save env of
                          SaveOSError exc \<Rightarrow> (Inl (PolarityAppError (save_msg exc)), WriteFailed)
                        | SaveOtherError exc \<Rightarrow> (Inl (UnexpectedError exc), WriteFailed)
                        | Saved \<Rightarrow>
                            (case collect_image_stems env of
                               Inl e \<Rightarrow> (Inl e, Written ws')
                             | Inr stems \<Rightarrow>
                                 (Inr \<lparr>output_path = (case output_path_arg env of
                                                        None \<Rightarrow> default_output_path env
                                                      | Some path \<Rightarrow> path),
                                       rows_written = length rows,
                                       images_found = length stems\<rparr>,
                                  Written ws'))))))"

section \<open>The entry point\<close>

fun split_char :: "char \<Rightarrow> string \<Rightarrow> string list" where
  \<comment> \<open>\<open>s.split(c)\<close> for a single character \<open>c\<close>\<close>
  "split_char c [] = [[]]"
| "split_char c (x # xs) =
     (if x = c then [] # split_char c xs
      else (case split_char c xs of [] \<Rightarrow> [[x]] | part # parts \<Rightarrow> (x # part) # parts))"

definition invalid_root_msg :: string where
  "invalid_root_msg = ''The selected folder does not exist or is not a valid folder.''"

definition mkdir_msg :: "string \<Rightarrow> string" where
  "mkdir_msg exc = ''Could not create DATA/IMAGES folders: '' @ exc"

definition run :: "env \<Rightarrow> processor \<Rightarrow> (error + process_result) \<times> processor \<times> output_file" where
  \<comment> \<open>the DATA and IMAGES directories that \<open>_resolve_existing_dir\<close> picks are the ones the
      environment answers for\<close>
  "run env p =
     (if \<not> root_is_dir env then (Inl (PolarityAppError invalid_root_msg), p, NotWritten)
      else
        let parts = map strip (split_char (CHR '';'') (folder_name env));
            p1 = (if length parts \<ge> 3
                  then p\<lparr>job_name := parts ! 0, revision := parts ! 1, side := parts ! 2\<rparr>
                  else p)
        in case mkdir_error env of
             Some exc \<Rightarrow> (Inl (PolarityAppError (mkdir_msg exc)), p1, NotWritten)
           | None \<Rightarrow>
               (case open_csv env p1 of
                  (Inl e, p2) \<Rightarrow> (Inl e, p2, NotWritten)
                | (Inr feeder_rows, p2) \<Rightarrow>
                    (case build_output_rows feeder_rows of
                       Inl e \<Rightarrow> (Inl e, p2, NotWritten)
                     | Inr output_rows \<Rightarrow>
                         (case write_excel env p2 output_rows of
                            (res, file) \<Rightarrow> (res, p2, file)))))"

section \<open>Statements of the specification\<close>

text \<open>
  The definitions of this section follow the words of the specification, not the code;
  the theorems compare them with the code.
\<close>

definition qty_nonzero :: "feeder_row \<Rightarrow> bool" where
  \<comment> \<open>the QTY field parses, by the interpreter's \<open>int\<close>, to an integer that is not zero\<close>
  "qty_nonzero r = (case py_int (field r ''QTY'') of Some n \<Rightarrow> n \<noteq> 0 | None \<Rightarrow> False)"

definition decimal_value :: "string \<Rightarrow> int option" where
  \<comment> \<open>the integer that a decimal numeral denotes (blanks around it, an optional sign,
      digits with single underscores between them), whatever its length; \<open>None\<close> for a
      text that is not one\<close>
  "decimal_value s =
     (let t = strip s;
          neg = (t \<noteq> [] \<and> hd t = CHR ''-'');
          body = (if t \<noteq> [] \<and> (hd t = CHR ''-'' \<or> hd t = CHR ''+'') then tl t else t)
      in if digits_ok body
         then Some (if neg then - digits_value body else digits_value body)
         else None)"

definition parses_to_nonzero :: "string \<Rightarrow> bool" where
  \<comment> \<open>the text is a decimal numeral of an integer that is not zero\<close>
  "parses_to_nonzero s = (case decimal_value s of Some n \<Rightarrow> n \<noteq> 0 | None \<Rightarrow> False)"

definition spec_slot_string :: "feeder_row \<Rightarrow> bool \<Rightarrow> string" where
  \<comment> \<open>the invariant of the data model: \<open>module-location\<close>, or
      \<open>module-mappedSide-location\<close> for a dataset of the alternate type\<close>
  "spec_slot_string row alternate =
     (if alternate
      then field row ''ModuleNumber'' @ ''-'' @ map_side (field row ''SideNo'') @ ''-'' @
           field row ''Location''
      else field row ''ModuleNumber'' @ ''-'' @ field row ''Location'')"

fun split_first :: "char \<Rightarrow> string \<Rightarrow> (string \<times> string) option" where
  \<comment> \<open>split on the first occurrence of a character; \<open>None\<close> when it does not occur\<close>
  "split_first c [] = None"
| "split_first c (x # xs) =
     (if x = c then Some ([], xs)
      else (case split_first c xs of None \<Rightarrow> None | Some (before, rest) \<Rightarrow> Some (x # before, rest)))"

definition passive_shape :: "string \<Rightarrow> bool" where
  \<comment> \<open>the shape name, in upper case and split on the first underscore, has a non-empty
      remainder that does not start with CON and whose first character is C or R\<close>
  "passive_shape shape =
     (case split_first (CHR ''_'') (py_upper shape) of
        None \<Rightarrow> False
      | Some (before, remainder) \<Rightarrow>
          remainder \<noteq> [] \<and> \<not> starts_with ''CON'' remainder \<and>
          (hd remainder = CHR ''C'' \<or> hd remainder = CHR ''R''))"

section \<open>A sample run\<close>

text \<open>
  A small FeederSetup.csv, as \<open>csv.reader\<close> returns it, and an environment around it:
  the file is not valid UTF-8 and is read as Latin-1. The theorems are instantiated on it.
\<close>

definition example_csv :: "string list list" where
  "example_csv =
     [[''Job'', ''Rev'', ''Line:''],
      [''J1'', ''A'', '' L5 ''],
      REQUIRED_FEEDER_COLUMNS,
      [''1'', ''0'', [CHR 0x27, CHR ''5'', CHR 0x27], ''PN1'', ''cap'', ''PK1'', ''rc_r0402'', ''F'', ''8'', ''4'', ''3''],
      ['''', '' '', ''''],
      [''2'', ''1'', ''7'', ''PN2'', ''conn'', ''PK2'', ''SOIC_CON8'', ''F'', ''8'', ''4'', ''0''],
      [''3'', ''1'', ''9'', ''PN3'', ''misc'', ''PK3'', ''ABC'', ''F'', ''8'', ''4'', ''-1'']]"

definition example_env :: env where
  "example_env =
     \<lparr>root_is_dir = True,
      folder_name = ''JOB1; B ;TOP'',
      mkdir_error = None,
      feeder_is_file = True,
      read_csv = (\<lambda>encoding. case encoding of Utf8Sig \<Rightarrow> DecodeError | Latin1 \<Rightarrow> Rows example_csv),
      Workbook_avail = True,
      XLImage_avail = True,
      images_dir = Some [(''PN1.png'', True), (''notes.txt'', True), (''old'', False)],
      probe_error = (\<lambda>name. None),
      listing_error = None,
      image_error = (\<lambda>path. None),
      cell_error = (\<lambda>val. None),
      save = Saved,
      output_path_arg = Some ''report.xlsx'',
      default_output_path = ''polarity_report_20250101_000000.xlsx''\<rparr>"

definition example_records :: "feeder_row list" where
  \<comment> \<open>the records that the reader makes of \<open>example_csv\<close>\<close>
  "example_records =
     [[''ModuleNumber'' \<mapsto> ''1'', ''SideNo'' \<mapsto> ''0'',
       ''Location'' \<mapsto> [CHR 0x27, CHR ''5'', CHR 0x27],
       ''PartNumber'' \<mapsto> ''PN1'', ''PartComment'' \<mapsto> ''cap'', ''PackageName'' \<mapsto> ''PK1'',
       ''PartShapeName'' \<mapsto> ''rc_r0402'', ''FeederType'' \<mapsto> ''F'', ''TapeWidth'' \<mapsto> ''8'',
       ''FeedPitch'' \<mapsto> ''4'', ''QTY'' \<mapsto> ''3''],
      [''ModuleNumber'' \<mapsto> ''2'', ''SideNo'' \<mapsto> ''1'', ''Location'' \<mapsto> ''7'',
       ''PartNumber'' \<mapsto> ''PN2'', ''PartComment'' \<mapsto> ''conn'', ''PackageName'' \<mapsto> ''PK2'',
       ''PartShapeName'' \<mapsto> ''SOIC_CON8'', ''FeederType'' \<mapsto> ''F'', ''TapeWidth'' \<mapsto> ''8'',
       ''FeedPitch'' \<mapsto> ''4'', ''QTY'' \<mapsto> ''0''],
      [''ModuleNumber'' \<mapsto> ''3'', ''SideNo'' \<mapsto> ''1'', ''Location'' \<mapsto> ''9'',
       ''PartNumber'' \<mapsto> ''PN3'', ''PartComment'' \<mapsto> ''misc'', ''PackageName'' \<mapsto> ''PK3'',
       ''PartShapeName'' \<mapsto> ''ABC'', ''FeederType'' \<mapsto> ''F'', ''TapeWidth'' \<mapsto> ''8'',
       ''FeedPitch'' \<mapsto> ''4'', ''QTY'' \<mapsto> ''-1'']]"

definition example_short_csv :: "string list list" where
  \<comment> \<open>a file whose header row lacks FeederType and QTY\<close>
  "example_short_csv =
     [[''Job''], [''J1''],
      [''ModuleNumber'', ''SideNo'', '' Location '', ''PartNumber'', ''PartComment'',
       ''PackageName'', ''PartShapeName'', ''TapeWidth'', ''FeedPitch''],
      [''1'', ''0'', ''5'', ''PN1'', ''cap'', ''PK1'', ''RC_R0402'', ''8'', ''4'']]"

section \<open>Properties\<close>

subsection \<open>Loops as list functions\<close>

lemmas text_defs = strip_def lstrip_def rstrip_def is_space_def whitespace_def

lemmas int_defs = py_int_def is_digit_def digits_value_def digit_val_def int_max_str_digits_def

lemma filter_loop_eq: "filter_loop acc rows = acc @ filter (\<lambda>r. qty_val r \<noteq> 0) rows"
  by (induction rows arbitrary: acc) simp_all

lemma output_loop_eq: "output_loop aimex acc rows = acc @ map (\<lambda>r. output_row r aimex) rows"
  by (induction rows arbitrary: acc) simp_all

lemma detect_aimex_loop_eq:
  "detect_aimex_loop a rows =
     (a \<or> (\<exists>r \<in> set rows. map_side (strip (field r ''SideNo'')) = ''2''))"
  by (induction rows arbitrary: a) (auto simp: Let_def)

subsection \<open>Trimming twice is trimming once\<close>

lemma rstrip_idem: "rstrip (rstrip s) = rstrip s"
  by (simp add: rstrip_def)

lemma dropWhile_id: "xs = [] \<or> \<not> P (hd xs) \<Longrightarrow> dropWhile P xs = xs"
  by (cases xs) auto

lemma rstrip_prefix: "\<exists>ys. s = rstrip s @ ys"
proof -
  have "rev s = takeWhile is_space (rev s) @ dropWhile is_space (rev s)" by simp
  then have "s = rev (dropWhile is_space (rev s)) @ rev (takeWhile is_space (rev s))"
    by (metis rev_append rev_rev_ident)
  then show ?thesis unfolding rstrip_def by blast
qed

lemma lstrip_rstrip_lstrip: "lstrip (rstrip (lstrip s)) = rstrip (lstrip s)"
proof (cases "rstrip (lstrip s) = []")
  case True
  then show ?thesis by (simp add: lstrip_def)
next
  case False
  have "lstrip s \<noteq> []" using False by (auto simp: rstrip_def)
  then have h: "\<not> is_space (hd (lstrip s))" unfolding lstrip_def by (rule hd_dropWhile)
  obtain ys where ys: "lstrip s = rstrip (lstrip s) @ ys"
    using rstrip_prefix by blast
  with False have "hd (rstrip (lstrip s)) = hd (lstrip s)"
    by (metis hd_append2)
  with h False show ?thesis
    by (simp add: lstrip_def[of "rstrip (lstrip s)"] dropWhile_id)
qed

lemma strip_idem: "strip (strip s) = strip s"
  by (simp add: strip_def lstrip_rstrip_lstrip rstrip_idem)

lemma py_int_strip: "py_int (strip s) = py_int s"
  by (simp add: py_int_def strip_idem)

lemma py_int_empty: "strip s = [] \<Longrightarrow> py_int s = None"
  by (simp add: py_int_def)

lemma qty_val_nonzero: "(qty_val r \<noteq> 0) = qty_nonzero r"
proof (cases "strip (field r ''QTY'') = []")
  case True
  then show ?thesis by (simp add: qty_val_def qty_nonzero_def py_int_empty)
next
  case False
  then show ?thesis
    by (simp add: qty_val_def qty_nonzero_def py_int_strip split: option.splits)
qed

subsection \<open>The quantity filter\<close>

lemma is_digit_not_space: "is_digit c \<Longrightarrow> \<not> is_space c"
  by (auto simp: is_digit_def is_space_def whitespace_def)

lemma filter_dropWhile_disjoint:
  "(\<And>x. P x \<Longrightarrow> \<not> Q x) \<Longrightarrow> filter P (dropWhile Q xs) = filter P xs"
  by (induction xs) auto

lemma digits_strip: "filter is_digit (strip s) = filter is_digit s"
proof -
  have l: "filter is_digit (lstrip u) = filter is_digit u" for u
    unfolding lstrip_def by (rule filter_dropWhile_disjoint) (rule is_digit_not_space)
  have "filter is_digit (rstrip u) = rev (filter is_digit (dropWhile is_space (rev u)))" for u
    by (simp add: rstrip_def rev_filter)
  also have "\<dots> u = rev (filter is_digit (rev u))" for u
    by (simp add: filter_dropWhile_disjoint is_digit_not_space)
  finally have r: "filter is_digit (rstrip u) = filter is_digit u" for u
    by (simp add: rev_filter)
  show ?thesis by (simp add: strip_def l r)
qed

lemma digits_unsigned:
  "filter is_digit (if t \<noteq> [] \<and> (hd t = CHR ''-'' \<or> hd t = CHR ''+'') then tl t else t)
     = filter is_digit t"
  by (cases t) (auto simp: is_digit_def)

lemma py_int_decimal:
  "py_int s = (if length (filter is_digit s) \<le> int_max_str_digits then decimal_value s else None)"
  by (simp add: py_int_def decimal_value_def Let_def digits_unsigned digits_strip)

lemma digits_ok_ones: "digits_ok (replicate (Suc n) (CHR ''1''))"
  by (induction n) (simp_all add: is_digit_def)

lemma strip_ones: "strip (replicate n (CHR ''1'')) = replicate n (CHR ''1'')"
  by (simp add: text_defs dropWhile_replicate)

lemma digit_val_one: "digit_val (CHR ''1'') = 1"
  by (simp add: digit_val_def)

lemma digits_value_ones_aux:
  "0 < a \<Longrightarrow> 0 < foldl (\<lambda>a c. 10 * a + digit_val c) a (replicate n (CHR ''1''))"
  by (induction n arbitrary: a) (simp_all add: digit_val_one)

lemma digits_value_ones: "0 < digits_value (replicate (Suc n) (CHR ''1''))"
  by (simp add: digits_value_def is_digit_def digits_value_ones_aux digit_val_one)

lemma decimal_value_ones:
  "decimal_value (replicate (Suc n) (CHR ''1'')) = Some (digits_value (replicate (Suc n) (CHR ''1'')))"
proof -
  have "strip (replicate (Suc n) (CHR ''1'')) = CHR ''1'' # replicate n (CHR ''1'')"
    using strip_ones [of "Suc n"] by simp
  then show ?thesis
    using digits_ok_ones [of n] by (simp add: decimal_value_def)
qed

text \<open>
  C1, as amended. The normalizer's output has exactly one report row for each record whose
  QTY parses to a non-zero integer and has at most 4300 digits (the limit of the
  interpreter's \<open>int\<close>, past which the text counts as 0 like any text that is not a
  number), in the order of the source; when no record survives it fails with the error of
  an empty dataset (one message for an input with no record at all, another for an input
  whose records are all filtered out).
\<close>

theorem build_output_rows_filter:
  "build_output_rows rows =
     (if filter qty_nonzero rows = []
      then Inl (PolarityAppError (if rows = [] then no_data_msg else no_rows_left_msg))
      else Inr (map (\<lambda>r. output_row r (detect_aimex (filter qty_nonzero rows)))
                  (filter qty_nonzero rows))) \<and>
   (\<forall>r. qty_nonzero r =
          (parses_to_nonzero (field r ''QTY'') \<and> length (filter is_digit (field r ''QTY'')) \<le> 4300))"
proof -
  have f: "filter_loop [] rows = filter qty_nonzero rows"
    by (simp add: filter_loop_eq qty_val_nonzero)
  have "build_output_rows rows =
     (if filter qty_nonzero rows = []
      then Inl (PolarityAppError (if rows = [] then no_data_msg else no_rows_left_msg))
      else Inr (map (\<lambda>r. output_row r (detect_aimex (filter qty_nonzero rows)))
                  (filter qty_nonzero rows)))"
    by (cases "rows = []") (simp_all add: build_output_rows_def f output_loop_eq Let_def)
  moreover have "qty_nonzero r =
          (parses_to_nonzero (field r ''QTY'') \<and> length (filter is_digit (field r ''QTY'')) \<le> 4300)"
    for r
    by (simp add: qty_nonzero_def parses_to_nonzero_def py_int_decimal int_max_str_digits_def)
  ultimately show ?thesis by blast
qed

text \<open>
  Records with QTY "0", "" and "abc" are dropped, those with "-1" and "3" are kept, in
  order; a dataset with only QTY "0" is an error.
\<close>

theorem build_output_rows_filter_witness:
  "map (\<lambda>out. out ''Part Number'')
     (projr (build_output_rows
        [[''PartNumber'' \<mapsto> ''A'', ''QTY'' \<mapsto> ''0''],
         [''PartNumber'' \<mapsto> ''B'', ''QTY'' \<mapsto> ''-1''],
         [''PartNumber'' \<mapsto> ''C'', ''QTY'' \<mapsto> ''''],
         [''PartNumber'' \<mapsto> ''D'', ''QTY'' \<mapsto> ''abc''],
         [''PartNumber'' \<mapsto> ''E'', ''QTY'' \<mapsto> ''3'']])) = [Some ''B'', Some ''E'']
   \<and> build_output_rows [[''PartNumber'' \<mapsto> ''A'', ''QTY'' \<mapsto> ''0'']]
       = Inl (PolarityAppError no_rows_left_msg)"
  using build_output_rows_filter
          [of "[[''PartNumber'' \<mapsto> ''A'', ''QTY'' \<mapsto> ''0''],
                [''PartNumber'' \<mapsto> ''B'', ''QTY'' \<mapsto> ''-1''],
                [''PartNumber'' \<mapsto> ''C'', ''QTY'' \<mapsto> ''''],
                [''PartNumber'' \<mapsto> ''D'', ''QTY'' \<mapsto> ''abc''],
                [''PartNumber'' \<mapsto> ''E'', ''QTY'' \<mapsto> ''3'']]"]
        build_output_rows_filter [of "[[''PartNumber'' \<mapsto> ''A'', ''QTY'' \<mapsto> ''0'']]"]
  by (simp add: qty_nonzero_def field_def text_defs int_defs output_row_def)

text \<open>
  C1 as stated fails: a QTY of 4301 digits "1" is the numeral of an integer that is not
  zero, and the record is dropped; being the only one, the dataset is reported empty.
\<close>

theorem qty_digit_limit_counterexample:
  "parses_to_nonzero (replicate 4301 (CHR ''1'')) \<and>
   build_output_rows [[''PartNumber'' \<mapsto> ''A'', ''QTY'' \<mapsto> replicate 4301 (CHR ''1'')]]
     = Inl (PolarityAppError no_rows_left_msg)"
proof -
  have e: "(4301::nat) = Suc 4300" by simp
  have a: "parses_to_nonzero (replicate (Suc 4300) (CHR ''1''))"
    using digits_value_ones [of 4300]
    by (simp only: parses_to_nonzero_def decimal_value_ones option.case)
  have "length (filter is_digit (replicate (Suc 4300) (CHR ''1''))) = Suc 4300"
    by (simp add: is_digit_def)
  then have "py_int (replicate (Suc 4300) (CHR ''1'')) = None"
    by (simp only: py_int_decimal int_max_str_digits_def) simp
  then have "\<not> qty_nonzero [''PartNumber'' \<mapsto> ''A'', ''QTY'' \<mapsto> replicate (Suc 4300) (CHR ''1'')]"
    by (simp add: qty_nonzero_def field_def)
  then have "build_output_rows
               [[''PartNumber'' \<mapsto> ''A'', ''QTY'' \<mapsto> replicate (Suc 4300) (CHR ''1'')]]
             = Inl (PolarityAppError no_rows_left_msg)"
    by (simp add: build_output_rows_def filter_loop_eq qty_val_nonzero)
  with a show ?thesis unfolding e by blast
qed

subsection \<open>The machine type\<close>

text \<open>
  C4. The remapping of a side sends "1" to "2" and "0" to "1" and keeps any other value;
  the dataset is of the alternate type (AIMEX) exactly when the remapped side of at least
  one record is "2".
\<close>

theorem detect_aimex_iff:
  "map_side ''1'' = ''2'' \<and> map_side ''0'' = ''1'' \<and>
   (\<forall>s. s \<noteq> ''1'' \<and> s \<noteq> ''0'' \<longrightarrow> map_side s = s) \<and>
   (detect_aimex rows \<longleftrightarrow> (\<exists>r \<in> set rows. map_side (strip (field r ''SideNo'')) = ''2''))"
  by (simp add: map_side_def detect_aimex_def detect_aimex_loop_eq)

theorem detect_aimex_iff_witness:
  "map_side ''2'' = ''2'' \<and> map_side '''' = '''' \<and>
   detect_aimex [[''SideNo'' \<mapsto> ''0''], [''SideNo'' \<mapsto> ''1'']] \<and>
   \<not> detect_aimex [[''SideNo'' \<mapsto> ''0''], [''SideNo'' \<mapsto> ''3'']]"
  using detect_aimex_iff [of "[[''SideNo'' \<mapsto> ''0''], [''SideNo'' \<mapsto> ''1'']]"]
        detect_aimex_iff [of "[[''SideNo'' \<mapsto> ''0''], [''SideNo'' \<mapsto> ''3'']]"]
  by (simp add: map_side_def field_def text_defs)

subsection \<open>What the reader hands over is trimmed\<close>

lemma strip_Nil: "strip [] = []"
  by (simp add: text_defs)

lemma field_upd: "field (d(k \<mapsto> v)) k' = (if k' = k then v else field d k')"
  by (simp add: field_def)

lemma field_empty: "field Map.empty k = []"
  by (simp add: field_def)

lemma output_row_Slot: "output_row r a ''Slot'' = Some (strip (field r ''Location''))"
  by (simp add: output_row_def)

lemma output_row_Modulo: "output_row r a ''Modulo'' = Some (strip (field r ''ModuleNumber''))"
  by (simp add: output_row_def)

lemma build_output_rows_Inr:
  "build_output_rows rows = Inr out \<Longrightarrow>
   out = map (\<lambda>r. output_row r (detect_aimex (filter qty_nonzero rows))) (filter qty_nonzero rows)"
  by (simp add: build_output_rows_def filter_loop_eq qty_val_nonzero output_loop_eq Let_def
           split: if_splits)

lemma fold_invariant: "(\<And>x d. P d \<Longrightarrow> P (f x d)) \<Longrightarrow> P d \<Longrightarrow> P (fold f xs d)"
  by (induction xs arbitrary: d) simp_all

lemma row_dict_trimmed: "strip (field (row_dict headers r) k) = field (row_dict headers r) k"
proof -
  let ?P = "\<lambda>d :: feeder_row. \<forall>k. strip (field d k) = field d k"
  have "?P (row_dict headers r)"
    unfolding row_dict_def
  proof (rule fold_invariant [where P = ?P])
    show "?P Map.empty" by (simp add: field_empty strip_Nil)
  next
    fix x :: "nat \<times> string" and d :: feeder_row
    assume d: "?P d"
    obtain i h where x: "x = (i, h)" by (cases x)
    show "?P ((case x of (i, h) \<Rightarrow> \<lambda>d. d(h \<mapsto> (if i < length r then strip (r ! i) else []))) d)"
      using d by (simp add: x field_upd strip_idem strip_Nil)
  qed
  then show ?thesis by blast
qed

lemma data_loop_rows:
  "set (data_loop headers result data_rows) \<subseteq> set result \<union> range (row_dict headers)"
proof (induction data_rows arbitrary: result)
  case Nil
  then show ?case by simp
next
  case (Cons r data_rows)
  show ?case
  proof (cases "list_ex (\<lambda>cell. strip cell \<noteq> []) r")
    case True
    have "set (result @ [row_dict headers r]) \<union> range (row_dict headers)
            \<subseteq> set result \<union> range (row_dict headers)"
      by auto
    with Cons.IH [of "result @ [row_dict headers r]"] True show ?thesis
      by (simp del: set_append) blast
  next
    case False
    with Cons.IH [of result] show ?thesis by simp
  qed
qed

lemma parse_rows_rows:
  "fst (parse_rows p rows) = Inr records \<Longrightarrow> x \<in> set records \<Longrightarrow> \<exists>headers r. x = row_dict headers r"
proof (cases "(p, rows)" rule: parse_rows.cases)
  case (1 p0 row0 row1 row2 data_rows)
  assume a: "fst (parse_rows p rows) = Inr records" and x: "x \<in> set records"
  from 1 a have "records = data_loop (map strip row2) [] data_rows"
    by (simp add: Let_def split: option.splits)
  with x data_loop_rows [of "map strip row2" "[]" data_rows]
  have "x \<in> range (row_dict (map strip row2))" by auto
  then show ?thesis by blast
qed simp_all

lemma open_csv_loop_rows:
  "fst (open_csv_loop env p encodings) = Inr records \<Longrightarrow> x \<in> set records \<Longrightarrow>
   \<exists>headers r. x = row_dict headers r"
proof (induction encodings)
  case Nil
  then show ?case by simp
next
  case (Cons encoding encodings)
  show ?case
  proof (cases "read_csv env encoding")
    case DecodeError
    with Cons show ?thesis by simp
  next
    case (OtherError exc)
    with Cons.prems show ?thesis by simp
  next
    case (Rows rows)
    with Cons.prems show ?thesis by (simp add: parse_rows_rows)
  qed
qed

lemma open_csv_trimmed:
  assumes "fst (open_csv env p) = Inr records" and "x \<in> set records"
  shows "strip (field x k) = field x k"
proof -
  from assms(1) have "fst (open_csv_loop env p [Utf8Sig, Latin1]) = Inr records"
    by (simp add: open_csv_def del: open_csv_loop.simps split: if_splits)
  then have "\<exists>headers r. x = row_dict headers r"
    using assms(2) by (rule open_csv_loop_rows)
  then show ?thesis by (auto simp: row_dict_trimmed)
qed

subsection \<open>The emitted Slot and Modulo columns\<close>

text \<open>
  C2. For every record that survives the filter, the Slot of its report row is the
  record's Location trimmed (no module, no side, quotes kept) and the Modulo is the
  record's ModuleNumber: the code trims it, and a record of the reader is trimmed already,
  so it is the value as the record holds it. The slot string of the remapping rule is
  computed and not emitted.
\<close>

theorem emitted_slot_is_location:
  assumes "fst (open_csv env p) = Inr records"
      and "build_output_rows records = Inr out"
  shows "length out = length (filter qty_nonzero records) \<and>
         (\<forall>i < length out.
            (out ! i) ''Slot'' = Some (strip (field (filter qty_nonzero records ! i) ''Location'')) \<and>
            (out ! i) ''Modulo'' = Some (strip (field (filter qty_nonzero records ! i) ''ModuleNumber'')) \<and>
            (out ! i) ''Modulo'' = Some (field (filter qty_nonzero records ! i) ''ModuleNumber''))"
proof -
  let ?surv = "filter qty_nonzero records"
  have out: "out = map (\<lambda>r. output_row r (detect_aimex ?surv)) ?surv"
    using assms(2) by (rule build_output_rows_Inr)
  have len: "length out = length ?surv" by (simp add: out)
  have "(out ! i) ''Slot'' = Some (strip (field (?surv ! i) ''Location'')) \<and>
        (out ! i) ''Modulo'' = Some (strip (field (?surv ! i) ''ModuleNumber'')) \<and>
        (out ! i) ''Modulo'' = Some (field (?surv ! i) ''ModuleNumber'')"
    if "i < length out" for i
  proof -
    from that len have i: "i < length ?surv" by simp
    then have "?surv ! i \<in> set ?surv" by (rule nth_mem)
    then have "?surv ! i \<in> set records" by simp
    then have t: "strip (field (?surv ! i) ''ModuleNumber'') = field (?surv ! i) ''ModuleNumber''"
      using assms(1) by (simp add: open_csv_trimmed)
    have "out ! i = output_row (?surv ! i) (detect_aimex ?surv)"
      using i unfolding out by (rule nth_map)
    then show ?thesis by (simp add: output_row_Slot output_row_Modulo t)
  qed
  with len show ?thesis by blast
qed

text \<open>The sample: the reader's records, the survivors, and the rows built from them.\<close>

lemma example_open_csv: "fst (open_csv example_env new_processor) = Inr example_records"
  by (simp add: open_csv_def example_env_def example_csv_def validate_headers_def
        REQUIRED_FEEDER_COLUMNS_def row_dict_def text_defs enumerate_eq_zip Let_def
        example_records_def)

lemma example_survivors:
  "filter qty_nonzero example_records = [example_records ! 0, example_records ! 2]"
  by (simp add: example_records_def qty_nonzero_def field_def text_defs int_defs)

lemma example_aimex: "detect_aimex [example_records ! 0, example_records ! 2]"
  by (simp add: example_records_def detect_aimex_def field_def text_defs map_side_def)

lemma example_build:
  "build_output_rows example_records =
     Inr [output_row (example_records ! 0) True, output_row (example_records ! 2) True]"
proof -
  have "filter_loop [] example_records = [example_records ! 0, example_records ! 2]"
    by (simp add: filter_loop_eq qty_val_nonzero example_survivors)
  moreover have "example_records \<noteq> []" by (simp add: example_records_def)
  ultimately show ?thesis
    by (simp add: build_output_rows_def output_loop_eq example_aimex)
qed

text \<open>
  On the sample, the first row's Slot is the location with its quotes, its Modulo is "1",
  while the slot string computed for that record is "1-1-5".
\<close>

theorem emitted_slot_is_location_witness:
  "(projr (build_output_rows example_records) ! 0) ''Slot'' = Some [CHR 0x27, CHR ''5'', CHR 0x27] \<and>
   (projr (build_output_rows example_records) ! 0) ''Modulo'' = Some ''1'' \<and>
   build_slot_string (example_records ! 0) True = ''1-1-5''"
proof -
  let ?out = "[output_row (example_records ! 0) True, output_row (example_records ! 2) True]"
  have "\<forall>i < length ?out.
          (?out ! i) ''Slot'' = Some (strip (field (filter qty_nonzero example_records ! i) ''Location'')) \<and>
          (?out ! i) ''Modulo'' = Some (strip (field (filter qty_nonzero example_records ! i) ''ModuleNumber'')) \<and>
          (?out ! i) ''Modulo'' = Some (field (filter qty_nonzero example_records ! i) ''ModuleNumber'')"
    using emitted_slot_is_location [OF example_open_csv example_build] by blast
  moreover have "0 < length ?out" by simp
  ultimately have "(?out ! 0) ''Slot'' = Some (strip (field (filter qty_nonzero example_records ! 0) ''Location'')) \<and>
             (?out ! 0) ''Modulo'' = Some (field (filter qty_nonzero example_records ! 0) ''ModuleNumber'')"
    by blast
  moreover have "build_slot_string (example_records ! 0) True = ''1-1-5''"
    by (simp add: build_slot_string_def example_records_def field_def text_defs map_side_def
          remove_char_def strip_chars_def rstrip_chars_def)
  ultimately show ?thesis
    by (simp add: example_build example_survivors)
       (simp add: example_records_def field_def text_defs)
qed

subsection \<open>The slot string\<close>

lemma strip_chars_id:
  assumes "s \<noteq> []" and "hd s \<notin> set cs" and "last s \<notin> set cs"
  shows "strip_chars cs s = s"
proof -
  have "dropWhile (\<lambda>c. c \<in> set cs) s = s"
    using assms(1,2) by (simp add: dropWhile_id)
  moreover have "dropWhile (\<lambda>c. c \<in> set cs) (rev s) = rev s"
    using assms(1,3) by (simp add: dropWhile_id hd_rev)
  ultimately show ?thesis by (simp add: strip_chars_def rstrip_chars_def)
qed

lemma strip_chars_shape:
  "\<exists>a b. t = a @ strip_chars cs t @ b \<and> set a \<subseteq> set cs \<and> set b \<subseteq> set cs"
proof -
  let ?P = "\<lambda>c. c \<in> set cs"
  let ?u = "dropWhile ?P t"
  let ?a = "takeWhile ?P t"
  let ?b = "rev (takeWhile ?P (rev ?u))"
  have "rev ?u = takeWhile ?P (rev ?u) @ dropWhile ?P (rev ?u)" by simp
  then have "?u = rev (dropWhile ?P (rev ?u)) @ ?b"
    by (metis rev_append rev_rev_ident)
  then have u: "?u = strip_chars cs t @ ?b"
    by (simp add: strip_chars_def rstrip_chars_def)
  have "t = ?a @ ?u" by simp
  with u have "t = ?a @ strip_chars cs t @ ?b" by simp
  moreover have "set ?a \<subseteq> set cs" by (auto dest: set_takeWhileD)
  moreover have "set ?b \<subseteq> set cs" by (auto dest: set_takeWhileD)
  ultimately show ?thesis by blast
qed

lemma strip_chars_ends:
  assumes "strip_chars cs t \<noteq> []"
  shows "hd (strip_chars cs t) \<notin> set cs \<and> last (strip_chars cs t) \<notin> set cs"
proof -
  let ?P = "\<lambda>c. c \<in> set cs"
  let ?u = "dropWhile ?P t"
  let ?v = "dropWhile ?P (rev ?u)"
  have r: "strip_chars cs t = rev ?v" by (simp add: strip_chars_def rstrip_chars_def)
  with assms have v: "?v \<noteq> []" by simp
  have "?u = [] \<Longrightarrow> ?v = []" by (simp only: rev.simps dropWhile.simps)
  with v have u: "?u \<noteq> []" by blast
  have "\<not> ?P (hd ?v)" using v by (rule hd_dropWhile)
  then have l: "last (strip_chars cs t) \<notin> set cs"
    using v by (simp add: r last_rev)
  have "rev ?u = takeWhile ?P (rev ?u) @ ?v" by simp
  then have "last (rev ?u) = last ?v" using v by (metis last_appendR)
  then have "last ?v = hd ?u" using u by (simp add: last_rev)
  moreover have "\<not> ?P (hd ?u)" using u by (rule hd_dropWhile)
  ultimately have "hd (strip_chars cs t) \<notin> set cs"
    using v by (simp add: r hd_rev)
  with l show ?thesis by simp
qed

text \<open>
  C3, as amended. The slot string computed for a record is the joined string with its
  leading and trailing hyphens removed, where the joined string is
  \<open>module-mappedSide-location\<close> when the dataset is of the alternate type and the remapped
  side of the record is not empty, and \<open>module-location\<close> otherwise (module and side
  trimmed; location with its single quotes removed, then trimmed). So it is exactly
  \<open>module-location\<close>, or \<open>module-mappedSide-location\<close>, whenever the module is not empty
  and does not begin with a hyphen and the location is not empty and does not end with one.
\<close>

theorem slot_string_computed:
  assumes "m = strip (field row ''ModuleNumber'')"
      and "s = map_side (strip (field row ''SideNo''))"
      and "l = strip (remove_char (CHR 0x27) (field row ''Location''))"
      and "joined = (if aimex \<and> s \<noteq> [] then m @ ''-'' @ s @ ''-'' @ l else m @ ''-'' @ l)"
  shows "(\<exists>a b. joined = a @ build_slot_string row aimex @ b \<and>
                set a \<subseteq> {CHR ''-''} \<and> set b \<subseteq> {CHR ''-''}) \<and>
         (build_slot_string row aimex \<noteq> [] \<longrightarrow>
            hd (build_slot_string row aimex) \<noteq> CHR ''-'' \<and>
            last (build_slot_string row aimex) \<noteq> CHR ''-'') \<and>
         (m \<noteq> [] \<and> hd m \<noteq> CHR ''-'' \<and> l \<noteq> [] \<and> last l \<noteq> CHR ''-'' \<longrightarrow>
            build_slot_string row aimex = joined)"
proof -
  have b: "build_slot_string row aimex = strip_chars ''-'' joined"
    by (simp add: build_slot_string_def assms Let_def)
  have 1: "\<exists>a b. joined = a @ build_slot_string row aimex @ b \<and>
                 set a \<subseteq> {CHR ''-''} \<and> set b \<subseteq> {CHR ''-''}"
    using strip_chars_shape [of joined "''-''"] by (simp add: b)
  have 2: "hd (build_slot_string row aimex) \<noteq> CHR ''-'' \<and>
           last (build_slot_string row aimex) \<noteq> CHR ''-''"
    if "build_slot_string row aimex \<noteq> []"
    using strip_chars_ends [of "''-''" joined] that by (simp add: b)
  have 3: "build_slot_string row aimex = joined"
    if h: "m \<noteq> [] \<and> hd m \<noteq> CHR ''-'' \<and> l \<noteq> [] \<and> last l \<noteq> CHR ''-''"
  proof -
    have "strip_chars ''-'' joined = joined"
      by (rule strip_chars_id) (use h assms(4) in simp_all)
    then show ?thesis by (simp add: b)
  qed
  from 1 2 3 show ?thesis by blast
qed

text \<open>A record with module "3", side "1" and location "9", in both kinds of dataset.\<close>

theorem slot_string_computed_witness:
  "build_slot_string [''ModuleNumber'' \<mapsto> ''3'', ''SideNo'' \<mapsto> ''1'', ''Location'' \<mapsto> ''9''] True = ''3-2-9'' \<and>
   build_slot_string [''ModuleNumber'' \<mapsto> ''3'', ''SideNo'' \<mapsto> ''1'', ''Location'' \<mapsto> ''9''] False = ''3-9''"
  using slot_string_computed
          [OF refl refl refl refl,
           where row = "[''ModuleNumber'' \<mapsto> ''3'', ''SideNo'' \<mapsto> ''1'', ''Location'' \<mapsto> ''9'']"
             and aimex = True]
        slot_string_computed
          [OF refl refl refl refl,
           where row = "[''ModuleNumber'' \<mapsto> ''3'', ''SideNo'' \<mapsto> ''1'', ''Location'' \<mapsto> ''9'']"
             and aimex = False]
  by (simp add: field_def text_defs map_side_def remove_char_def)

text \<open>
  C3 as stated fails, in three ways. A record without a module, in a dataset that is not
  of the alternate type, has the slot string "5", not "-5". A record without a side, in a
  dataset of the alternate type, has the slot string "1-5", not "1--5". A record whose
  location is written between single quotes has the slot string "1-5", without the
  quotes. All three records produce a report row.
\<close>

theorem slot_string_counterexample:
  "build_output_rows
     [[''ModuleNumber'' \<mapsto> [], ''SideNo'' \<mapsto> ''0'', ''Location'' \<mapsto> ''5'', ''QTY'' \<mapsto> ''1'']]
     = Inr [output_row
              [''ModuleNumber'' \<mapsto> [], ''SideNo'' \<mapsto> ''0'', ''Location'' \<mapsto> ''5'', ''QTY'' \<mapsto> ''1'']
              False] \<and>
   build_slot_string
     [''ModuleNumber'' \<mapsto> [], ''SideNo'' \<mapsto> ''0'', ''Location'' \<mapsto> ''5'', ''QTY'' \<mapsto> ''1''] False
     = ''5'' \<and>
   spec_slot_string
     [''ModuleNumber'' \<mapsto> [], ''SideNo'' \<mapsto> ''0'', ''Location'' \<mapsto> ''5'', ''QTY'' \<mapsto> ''1''] False
     = ''-5'' \<and>
   build_output_rows
     [[''ModuleNumber'' \<mapsto> ''1'', ''SideNo'' \<mapsto> ''1'', ''Location'' \<mapsto> ''4'', ''QTY'' \<mapsto> ''1''],
      [''ModuleNumber'' \<mapsto> ''1'', ''SideNo'' \<mapsto> [], ''Location'' \<mapsto> ''5'', ''QTY'' \<mapsto> ''1'']]
     = Inr [output_row
              [''ModuleNumber'' \<mapsto> ''1'', ''SideNo'' \<mapsto> ''1'', ''Location'' \<mapsto> ''4'', ''QTY'' \<mapsto> ''1'']
              True,
            output_row
              [''ModuleNumber'' \<mapsto> ''1'', ''SideNo'' \<mapsto> [], ''Location'' \<mapsto> ''5'', ''QTY'' \<mapsto> ''1'']
              True] \<and>
   build_slot_string
     [''ModuleNumber'' \<mapsto> ''1'', ''SideNo'' \<mapsto> [], ''Location'' \<mapsto> ''5'', ''QTY'' \<mapsto> ''1''] True
     = ''1-5'' \<and>
   spec_slot_string
     [''ModuleNumber'' \<mapsto> ''1'', ''SideNo'' \<mapsto> [], ''Location'' \<mapsto> ''5'', ''QTY'' \<mapsto> ''1''] True
     = ''1--5'' \<and>
   build_output_rows
     [[''ModuleNumber'' \<mapsto> ''1'', ''SideNo'' \<mapsto> ''0'',
       ''Location'' \<mapsto> [CHR 0x27, CHR ''5'', CHR 0x27], ''QTY'' \<mapsto> ''1'']]
     = Inr [output_row
              [''ModuleNumber'' \<mapsto> ''1'', ''SideNo'' \<mapsto> ''0'',
               ''Location'' \<mapsto> [CHR 0x27, CHR ''5'', CHR 0x27], ''QTY'' \<mapsto> ''1'']
              False] \<and>
   build_slot_string
     [''ModuleNumber'' \<mapsto> ''1'', ''SideNo'' \<mapsto> ''0'',
      ''Location'' \<mapsto> [CHR 0x27, CHR ''5'', CHR 0x27], ''QTY'' \<mapsto> ''1''] False
     = ''1-5'' \<and>
   spec_slot_string
     [''ModuleNumber'' \<mapsto> ''1'', ''SideNo'' \<mapsto> ''0'',
      ''Location'' \<mapsto> [CHR 0x27, CHR ''5'', CHR 0x27], ''QTY'' \<mapsto> ''1''] False
     = [CHR ''1'', CHR ''-'', CHR 0x27, CHR ''5'', CHR 0x27]"
proof -
  let ?a = "[''ModuleNumber'' \<mapsto> [], ''SideNo'' \<mapsto> ''0'', ''Location'' \<mapsto> ''5'', ''QTY'' \<mapsto> ''1'']"
  let ?b = "[''ModuleNumber'' \<mapsto> ''1'', ''SideNo'' \<mapsto> ''1'', ''Location'' \<mapsto> ''4'', ''QTY'' \<mapsto> ''1'']"
  let ?c = "[''ModuleNumber'' \<mapsto> ''1'', ''SideNo'' \<mapsto> [], ''Location'' \<mapsto> ''5'', ''QTY'' \<mapsto> ''1'']"
  let ?d = "[''ModuleNumber'' \<mapsto> ''1'', ''SideNo'' \<mapsto> ''0'',
             ''Location'' \<mapsto> [CHR 0x27, CHR ''5'', CHR 0x27], ''QTY'' \<mapsto> ''1'']"
  have q: "qty_nonzero ?a" "qty_nonzero ?b" "qty_nonzero ?c" "qty_nonzero ?d"
    by (simp_all add: qty_nonzero_def field_def text_defs int_defs)
  have d: "\<not> detect_aimex [?a]" "detect_aimex [?b, ?c]" "\<not> detect_aimex [?d]"
    by (simp_all add: detect_aimex_def field_def text_defs map_side_def)
  have 5: "build_output_rows [?d] = Inr [output_row ?d False]"
    using q d by (simp add: build_output_rows_def filter_loop_eq output_loop_eq qty_val_nonzero)
  have 6: "build_slot_string ?d False = ''1-5''"
    by (simp add: build_slot_string_def field_def text_defs map_side_def remove_char_def
          strip_chars_def rstrip_chars_def)
  have 7: "spec_slot_string ?d False = [CHR ''1'', CHR ''-'', CHR 0x27, CHR ''5'', CHR 0x27]"
    by (simp add: spec_slot_string_def field_def map_side_def)
  have 1: "build_output_rows [?a] = Inr [output_row ?a False]"
    using q d by (simp add: build_output_rows_def filter_loop_eq output_loop_eq qty_val_nonzero)
  have 2: "build_output_rows [?b, ?c] = Inr [output_row ?b True, output_row ?c True]"
    using q d by (simp add: build_output_rows_def filter_loop_eq output_loop_eq qty_val_nonzero)
  have 3: "build_slot_string ?a False = ''5''" "build_slot_string ?c True = ''1-5''"
    by (simp_all add: build_slot_string_def field_def text_defs map_side_def remove_char_def
          strip_chars_def rstrip_chars_def)
  have 4: "spec_slot_string ?a False = ''-5''" "spec_slot_string ?c True = ''1--5''"
    by (simp_all add: spec_slot_string_def field_def map_side_def)
  from 1 2 3 4 5 6 7 show ?thesis by simp
qed

subsection \<open>Passive components and their fill\<close>

lemma split_first_eq:
  "split_first c s =
     (if c \<in> set s then Some (takeWhile (\<lambda>x. x \<noteq> c) s, tl (dropWhile (\<lambda>x. x \<noteq> c) s)) else None)"
  by (induction s) auto

lemma is_passive_eq: "is_passive row = passive_shape (strip (field row ''Name of shape''))"
  by (simp add: is_passive_def passive_shape_def split_first_eq Let_def)

lemma output_row_shape:
  "field (output_row r a) ''Name of shape'' = strip (field r ''PartShapeName'')"
  by (simp add: output_row_def field_def)


lemma cells_set_cell:
  "cells (set_cell r c v f ws) k =
     (if k = (r, c) then Some \<lparr>cell_value = v, cell_fill = f\<rparr> else cells ws k)"
  by (simp add: set_cell_def)


lemma cells_write_data_row:
  "cells (write_data_row r_idx row ws) (r, c) =
     (if r = r_idx \<and> 1 \<le> c \<and> c \<le> 8
      then Some \<lparr>cell_value = field row (OUTPUT_COLUMNS ! (c - 1)),
                 cell_fill = (if is_passive row \<and> (c = 7 \<or> c = 8) then Some passive_fill else None)\<rparr>
      else cells ws (r, c))"
proof (cases "r = r_idx \<and> 1 \<le> c \<and> c \<le> 8")
  case True
  then have "c = 1 \<or> c = 2 \<or> c = 3 \<or> c = 4 \<or> c = 5 \<or> c = 6 \<or> c = 7 \<or> c = 8" by arith
  then show ?thesis
    using True
    by (elim disjE)
       (simp_all add: write_data_row_def OUTPUT_COLUMNS_def cells_set_cell field_def)
next
  case False
  then show ?thesis
    by (auto simp: write_data_row_def OUTPUT_COLUMNS_def cells_set_cell)
qed


lemma cells_write_rows:
  "cells (fold (\<lambda>(r_idx, row) w. write_data_row r_idx row w) (enumerate n rows) ws) (r, c) =
     (if n \<le> r \<and> r < n + length rows \<and> 1 \<le> c \<and> c \<le> 8
      then Some \<lparr>cell_value = field (rows ! (r - n)) (OUTPUT_COLUMNS ! (c - 1)),
                 cell_fill = (if is_passive (rows ! (r - n)) \<and> (c = 7 \<or> c = 8)
                              then Some passive_fill else None)\<rparr>
      else cells ws (r, c))"
proof (induction rows arbitrary: n ws)
  case Nil
  then show ?case by auto
next
  case (Cons row rows)
  have step:
    "cells (fold (\<lambda>(r_idx, row) w. write_data_row r_idx row w) (enumerate (Suc n) rows)
              (write_data_row n row ws)) (r, c) =
       (if Suc n \<le> r \<and> r < Suc n + length rows \<and> 1 \<le> c \<and> c \<le> 8
        then Some \<lparr>cell_value = field (rows ! (r - Suc n)) (OUTPUT_COLUMNS ! (c - 1)),
                   cell_fill = (if is_passive (rows ! (r - Suc n)) \<and> (c = 7 \<or> c = 8)
                                then Some passive_fill else None)\<rparr>
        else cells (write_data_row n row ws) (r, c))"
    by (rule Cons.IH)
  show ?case
  proof (cases "r = n")
    case True
    with step show ?thesis
      by (simp add: cells_write_data_row)
  next
    case False
    then have "n \<le> r \<Longrightarrow> (row # rows) ! (r - n) = rows ! (r - Suc n)"
      by (simp add: nth_Cons')
    with False step show ?thesis
      by (auto simp: cells_write_data_row)
  qed
qed

lemma cells_write_table:
  "cells (write_table rows ws) (r, c) =
     (if data_start_row \<le> r \<and> r < data_start_row + length rows \<and> 1 \<le> c \<and> c \<le> 8
      then Some \<lparr>cell_value = field (rows ! (r - data_start_row)) (OUTPUT_COLUMNS ! (c - 1)),
                 cell_fill = (if is_passive (rows ! (r - data_start_row)) \<and> (c = 7 \<or> c = 8)
                              then Some passive_fill else None)\<rparr>
      else cells ws (r, c))"
  unfolding write_table_def by (rule cells_write_rows)


lemma set_cell_no_fill:
  "(\<forall>k cell. cells w k = Some cell \<longrightarrow> cell_fill cell = None) \<Longrightarrow>
   (\<forall>k cell. cells (set_cell r c v None w) k = Some cell \<longrightarrow> cell_fill cell = None)"
  by (auto simp: cells_set_cell)

lemma write_form_no_fill:
  assumes "\<forall>k cell. cells w k = Some cell \<longrightarrow> cell_fill cell = None"
  shows "\<forall>k cell. cells (write_form p w) k = Some cell \<longrightarrow> cell_fill cell = None"
proof -
  let ?P = "\<lambda>w :: worksheet. \<forall>k cell. cells w k = Some cell \<longrightarrow> cell_fill cell = None"
  have 1: "?P (set_cell 1 1 ''Polarity Check'' None w)"
    using assms by (rule set_cell_no_fill)
  have 2: "?P (fold (\<lambda>(i, label) w. set_cell (start_row + i) 1 label None w) xs w')"
    if "?P w'" for xs w'
  proof (rule fold_invariant [where P = ?P])
    show "?P w'" by (rule that)
  next
    fix x :: "nat \<times> string" and d :: worksheet
    assume d: "?P d"
    obtain i h where x: "x = (i, h)" by (cases x)
    show "?P ((case x of (i, label) \<Rightarrow> \<lambda>w. set_cell (start_row + i) 1 label None w) d)"
      using set_cell_no_fill [OF d] by (simp add: x)
  qed
  have 3: "?P (fold (\<lambda>(i, label) w.
                 case info_values p label of
                   None \<Rightarrow> w
                 | Some val \<Rightarrow> if val \<noteq> [] then set_cell (start_row + i) 2 val None w else w) xs w')"
    if "?P w'" for xs w'
  proof (rule fold_invariant [where P = ?P])
    show "?P w'" by (rule that)
  next
    fix x :: "nat \<times> string" and d :: worksheet
    assume d: "?P d"
    obtain i h where x: "x = (i, h)" by (cases x)
    show "?P ((case x of (i, label) \<Rightarrow> \<lambda>w.
                 (case info_values p label of
                    None \<Rightarrow> w
                  | Some val \<Rightarrow> if val \<noteq> [] then set_cell (start_row + i) 2 val None w else w)) d)"
      using set_cell_no_fill [OF d] d by (simp add: x split: option.splits)
  qed
  show ?thesis
    unfolding write_form_def Let_def by (rule 3, rule 2, rule 1)
qed

lemma write_header_no_fill:
  assumes "\<forall>k cell. cells w k = Some cell \<longrightarrow> cell_fill cell = None"
  shows "\<forall>k cell. cells (write_header w) k = Some cell \<longrightarrow> cell_fill cell = None"
proof -
  let ?P = "\<lambda>w :: worksheet. \<forall>k cell. cells w k = Some cell \<longrightarrow> cell_fill cell = None"
  show ?thesis
    unfolding write_header_def
  proof (rule fold_invariant [where P = ?P])
    show "?P w" by (rule assms)
  next
    fix x :: "nat \<times> string" and d :: worksheet
    assume d: "?P d"
    obtain i h where x: "x = (i, h)" by (cases x)
    show "?P ((case x of (idx, col_name) \<Rightarrow> \<lambda>w. set_cell header_row idx col_name None w) d)"
      using set_cell_no_fill [OF d] by (simp add: x)
  qed
qed

lemma form_and_header_no_fill:
  "cells (write_header (write_form p \<lparr>cells = Map.empty, images = []\<rparr>)) k = Some cell \<Longrightarrow>
   cell_fill cell = None"
proof -
  have "\<forall>k cell. cells \<lparr>cells = Map.empty, images = []\<rparr> k = Some cell \<longrightarrow> cell_fill cell = None"
    by simp
  then have "\<forall>k cell. cells (write_header (write_form p \<lparr>cells = Map.empty, images = []\<rparr>)) k = Some cell
                \<longrightarrow> cell_fill cell = None"
    by (intro write_header_no_fill write_form_no_fill)
  then show "cells (write_header (write_form p \<lparr>cells = Map.empty, images = []\<rparr>)) k = Some cell \<Longrightarrow>
   cell_fill cell = None" by blast
qed

lemma embed_images_cells:
  "embed_images env n rows ws = Inr ws' \<Longrightarrow> cells ws' = cells ws"
  by (induction env n rows ws rule: embed_images.induct)
     (auto simp: Let_def split: option.splits sum.splits)

lemma insert_images_cells:
  "insert_images env rows ws = Inr ws' \<Longrightarrow> cells ws' = cells ws"
  by (auto simp: insert_images_def embed_images_cells split: if_splits option.splits)

lemma write_excel_Written:
  assumes "snd (write_excel env p rows) = Written ws"
  shows "cells ws = cells (write_table rows (write_header (write_form p \<lparr>cells = Map.empty, images = []\<rparr>)))"
  using assms
  by (auto simp: write_excel_def Let_def insert_images_cells
           split: option.splits sum.splits save_result.splits)

lemma passive_columns:
  "(1 \<le> c \<and> c \<le> 8 \<and>
    OUTPUT_COLUMNS ! (c - 1) \<in> {''Name of shape'', ''Coments or presentations changes''}) =
   (c = 7 \<or> c = 8)"
proof (cases "1 \<le> c \<and> c \<le> 8")
  case True
  then have "c = 1 \<or> c = 2 \<or> c = 3 \<or> c = 4 \<or> c = 5 \<or> c = 6 \<or> c = 7 \<or> c = 8" by arith
  then show ?thesis
    by (elim disjE) (simp_all add: OUTPUT_COLUMNS_def)
next
  case False
  then show ?thesis by auto
qed

lemma build_rows_passive:
  assumes "build_output_rows records = Inr rows" and "i < length rows"
  shows "is_passive (rows ! i) = passive_shape (field (rows ! i) ''Name of shape'')"
proof -
  let ?surv = "filter qty_nonzero records"
  have out: "rows = map (\<lambda>r. output_row r (detect_aimex ?surv)) ?surv"
    using assms(1) by (rule build_output_rows_Inr)
  with assms(2) have "rows ! i = output_row (?surv ! i) (detect_aimex ?surv)"
    by simp
  then show ?thesis
    by (simp add: is_passive_eq output_row_shape strip_idem)
qed

text \<open>
  C5. A row of the report is passive exactly when its shape name, in upper case and split
  on the first underscore, has a non-empty remainder that does not start with CON and
  whose first character is C or R; so RC_R0402 is passive, SOIC_CON8 and ABC are not. In
  the workbook written, every cell of the table exists, and a cell has the light-yellow
  fill exactly when it is in the row of a passive report row and in the column of
  "Name of shape" or of the comments; every other cell has no fill.
\<close>

theorem passive_rows_highlighted:
  assumes "build_output_rows records = Inr rows"
      and "snd (write_excel env p rows) = Written ws"
  shows "(\<forall>i < length rows.
            is_passive (rows ! i) = passive_shape (field (rows ! i) ''Name of shape'')) \<and>
         passive_shape ''RC_R0402'' \<and> \<not> passive_shape ''SOIC_CON8'' \<and> \<not> passive_shape ''ABC'' \<and>
         (\<forall>i < length rows. \<forall>c \<in> {1..8}. cells ws (data_start_row + i, c) \<noteq> None) \<and>
         (\<forall>r c cell. cells ws (r, c) = Some cell \<longrightarrow>
            cell_fill cell =
              (if \<exists>i < length rows. r = data_start_row + i \<and>
                     passive_shape (field (rows ! i) ''Name of shape'') \<and>
                     1 \<le> c \<and> c \<le> 8 \<and>
                     OUTPUT_COLUMNS ! (c - 1) \<in>
                       {''Name of shape'', ''Coments or presentations changes''}
               then Some passive_fill else None))"
proof -
  let ?base = "write_header (write_form p \<lparr>cells = Map.empty, images = []\<rparr>)"
  have ws: "cells ws = cells (write_table rows ?base)"
    using assms(2) by (rule write_excel_Written)
  have pas: "is_passive (rows ! i) = passive_shape (field (rows ! i) ''Name of shape'')"
    if "i < length rows" for i
    using assms(1) that by (rule build_rows_passive)
  have ex: "passive_shape ''RC_R0402'' \<and> \<not> passive_shape ''SOIC_CON8'' \<and> \<not> passive_shape ''ABC''"
    by (simp add: passive_shape_def py_upper_def upper_char_def upper_letters_def
          lower_letters_def starts_with_def)
  have present: "cells ws (data_start_row + i, c) \<noteq> None"
    if "i < length rows" "c \<in> {1..8}" for i c
    using that by (simp add: ws cells_write_table)
  have fill: "cell_fill cell =
              (if \<exists>i < length rows. r = data_start_row + i \<and>
                     passive_shape (field (rows ! i) ''Name of shape'') \<and>
                     1 \<le> c \<and> c \<le> 8 \<and>
                     OUTPUT_COLUMNS ! (c - 1) \<in>
                       {''Name of shape'', ''Coments or presentations changes''}
               then Some passive_fill else None)"
    if c: "cells ws (r, c) = Some cell" for r c cell
  proof (cases "data_start_row \<le> r \<and> r < data_start_row + length rows \<and> 1 \<le> c \<and> c \<le> 8")
    case True
    let ?i = "r - data_start_row"
    from True have i: "?i < length rows" and r: "r = data_start_row + ?i" by auto
    have "cell_fill cell = (if is_passive (rows ! ?i) \<and> (c = 7 \<or> c = 8) then Some passive_fill else None)"
      using c True by (auto simp: ws cells_write_table)
    also have "\<dots> = (if passive_shape (field (rows ! ?i) ''Name of shape'') \<and>
                        1 \<le> c \<and> c \<le> 8 \<and>
                        OUTPUT_COLUMNS ! (c - 1) \<in>
                          {''Name of shape'', ''Coments or presentations changes''}
                     then Some passive_fill else None)"
      using passive_columns [of c] pas [OF i] by simp
    also have "\<dots> = (if \<exists>i < length rows. r = data_start_row + i \<and>
                     passive_shape (field (rows ! i) ''Name of shape'') \<and>
                     1 \<le> c \<and> c \<le> 8 \<and>
                     OUTPUT_COLUMNS ! (c - 1) \<in>
                       {''Name of shape'', ''Coments or presentations changes''}
               then Some passive_fill else None)"
      using i r by (metis add_left_cancel)
    finally show ?thesis .
  next
    case False
    then have "cells ws (r, c) = cells ?base (r, c)"
      unfolding ws cells_write_table by (rule if_not_P)
    with c have "cell_fill cell = None"
      by (simp add: form_and_header_no_fill)
    moreover have "\<not> (\<exists>i < length rows. r = data_start_row + i \<and>
                     passive_shape (field (rows ! i) ''Name of shape'') \<and>
                     1 \<le> c \<and> c \<le> 8 \<and>
                     OUTPUT_COLUMNS ! (c - 1) \<in>
                       {''Name of shape'', ''Coments or presentations changes''})"
      using False by auto
    ultimately show ?thesis by simp
  qed
  from pas ex present fill show ?thesis by blast
qed

text \<open>The sample run writes its workbook; its first row is passive, its second is not.\<close>

lemma first_refused_none: "(\<And>val. cell_error env val = None) \<Longrightarrow> first_refused env vals = None"
  by (induction vals) simp_all

lemma probe_candidates_is_file:
  "probe_candidates env candidates = Inr (Some path) \<Longrightarrow> is_file env path"
  by (induction candidates) (auto split: option.splits if_splits)

lemma probe_candidates_total:
  "(\<And>name. probe_error env name = None) \<Longrightarrow> \<exists>r. probe_candidates env candidates = Inr r"
  by (induction candidates) simp_all

lemma find_image_is_file: "find_image_for_part env pn = Inr (Some path) \<Longrightarrow> is_file env path"
  by (auto simp: find_image_for_part_def Let_def simp del: probe_candidates.simps
           split: if_splits intro: probe_candidates_is_file)

lemma find_image_total:
  "(\<And>name. probe_error env name = None) \<Longrightarrow> \<exists>r. find_image_for_part env pn = Inr r"
  by (simp add: find_image_for_part_def Let_def probe_candidates_total del: probe_candidates.simps)

lemma embed_images_total:
  "(\<And>name. probe_error env name = None) \<Longrightarrow>
   (\<And>name. is_file env name \<Longrightarrow> image_error env name = None) \<Longrightarrow>
   \<exists>ws'. embed_images env n rows ws = Inr ws'"
proof (induction env n rows ws rule: embed_images.induct)
  case (1 env excel_row ws)
  then show ?case by simp
next
  case (2 env excel_row row rows ws)
  obtain r where r: "find_image_for_part env (strip (field row ''Part Number'')) = Inr r"
    using find_image_total [of env] "2.prems"(1) by blast
  show ?case
  proof (cases r)
    case None
    with 2 r show ?thesis by (simp add: Let_def)
  next
    case (Some path)
    with r have "image_error env path = None"
      using "2.prems"(2) find_image_is_file by blast
    with 2 r Some show ?thesis by (simp add: Let_def)
  qed
qed

lemma example_written:
  "\<exists>ws. write_excel example_env p rows =
          (Inr \<lparr>output_path = ''report.xlsx'', rows_written = length rows, images_found = 2\<rparr>,
           Written ws)"
proof -
  let ?base = "write_table rows (write_header (write_form p \<lparr>cells = Map.empty, images = []\<rparr>))"
  have "\<exists>ws'. embed_images example_env data_start_row rows ?base = Inr ws'"
    by (rule embed_images_total) (simp_all add: example_env_def)
  then obtain ws' where "embed_images example_env data_start_row rows ?base = Inr ws'" ..
  then have "insert_images example_env rows ?base = Inr (if rows = [] then ?base else ws')"
    by (simp add: insert_images_def ensure_image_support_def example_env_def)
  moreover have "first_refused example_env (written_values p rows) = None"
    by (rule first_refused_none) (simp add: example_env_def)
  ultimately show ?thesis
    by (simp add: write_excel_def ensure_workbook_available_def Let_def example_env_def
          collect_image_stems_def)
qed

lemma data_start_row_eq: "data_start_row = 11"
  by (simp add: data_start_row_def header_row_def start_row_def info_labels_def)

lemma example_shapes:
  "field (output_row (example_records ! 0) True) ''Name of shape'' = ''rc_r0402'' \<and>
   field (output_row (example_records ! 2) True) ''Name of shape'' = ''ABC''"
  by (simp add: output_row_shape) (simp add: example_records_def field_def text_defs)

lemma example_passive: "passive_shape ''rc_r0402'' \<and> \<not> passive_shape ''ABC''"
  by (simp add: passive_shape_def py_upper_def upper_char_def upper_letters_def
        lower_letters_def starts_with_def)

theorem passive_rows_highlighted_witness:
  "\<exists>ws. snd (write_excel example_env new_processor
               [output_row (example_records ! 0) True, output_row (example_records ! 2) True])
          = Written ws \<and>
        map (\<lambda>k. map_option cell_fill (cells ws k)) [(11, 6), (11, 7), (11, 8), (12, 7), (12, 8)]
          = [Some None, Some (Some passive_fill), Some (Some passive_fill), Some None, Some None]"
proof -
  let ?rows = "[output_row (example_records ! 0) True, output_row (example_records ! 2) True]"
  obtain ws where ws: "snd (write_excel example_env new_processor ?rows) = Written ws"
    using example_written [of new_processor ?rows] by auto
  note t = passive_rows_highlighted [OF example_build ws]
  have cond:
    "(\<exists>i < length ?rows. r = data_start_row + i \<and>
        passive_shape (field (?rows ! i) ''Name of shape'') \<and> 1 \<le> c \<and> c \<le> 8 \<and>
        OUTPUT_COLUMNS ! (c - 1) \<in> {''Name of shape'', ''Coments or presentations changes''})
     = (r = 11 \<and> (c = 7 \<or> c = 8))" for r c
    using passive_columns [of c]
    by (auto simp: less_Suc_eq data_start_row_eq example_shapes example_passive)
  have fill: "cell_fill cell = (if r = 11 \<and> (c = 7 \<or> c = 8) then Some passive_fill else None)"
    if "cells ws (r, c) = Some cell" for r c cell
    using t that unfolding cond by blast
  have present: "cells ws (11 + i, c) \<noteq> None" if "i < 2" "c \<in> {1..8}" for i c
    using t that by (simp add: data_start_row_eq)
  have val: "map_option cell_fill (cells ws (11 + i, c)) =
               Some (if i = 0 \<and> (c = 7 \<or> c = 8) then Some passive_fill else None)"
    if "i < 2" "c \<in> {1..8}" for i c
    using present [OF that] fill [of "11 + i" c] by (cases "cells ws (11 + i, c)") auto
  have "map_option cell_fill (cells ws (11, 6)) = Some None"
       "map_option cell_fill (cells ws (11, 7)) = Some (Some passive_fill)"
       "map_option cell_fill (cells ws (11, 8)) = Some (Some passive_fill)"
       "map_option cell_fill (cells ws (12, 7)) = Some None"
       "map_option cell_fill (cells ws (12, 8)) = Some None"
    using val [of 0 6] val [of 0 7] val [of 0 8] val [of 1 7] val [of 1 8] by simp_all
  with ws show ?thesis by simp
qed

subsection \<open>The steps of a run\<close>

lemma parse_rows_fst: "fst (parse_rows p rows) = fst (parse_rows q rows)"
  by (cases "(p, rows)" rule: parse_rows.cases) (simp_all add: Let_def split: option.splits)

lemma open_csv_loop_fst: "fst (open_csv_loop env p encodings) = fst (open_csv_loop env q encodings)"
  by (induction encodings) (simp_all add: parse_rows_fst split: read_result.splits)

lemma open_csv_fst: "fst (open_csv env p) = fst (open_csv env q)"
  by (simp add: open_csv_def open_csv_loop_fst del: open_csv_loop.simps)

lemma open_csv_loop_cong:
  "read_csv e1 = read_csv e2 \<Longrightarrow> open_csv_loop e1 p encodings = open_csv_loop e2 p encodings"
  by (induction encodings) (simp_all split: read_result.splits)

lemma open_csv_cong:
  "feeder_is_file e1 = feeder_is_file e2 \<Longrightarrow> read_csv e1 = read_csv e2 \<Longrightarrow>
   open_csv e1 p = open_csv e2 p"
  using open_csv_loop_cong [of e1 e2 p "[Utf8Sig, Latin1]"]
  by (simp add: open_csv_def del: open_csv_loop.simps)

lemma run_read_fails:
  assumes "root_is_dir env" and "mkdir_error env = None" and "fst (open_csv env q) = Inl e"
  shows "fst (run env p) = Inl e \<and> snd (snd (run env p)) = NotWritten"
proof -
  let ?p1 = "if 3 \<le> length (map strip (split_char (CHR '';'') (folder_name env)))
             then p\<lparr>job_name := map strip (split_char (CHR '';'') (folder_name env)) ! 0,
                    revision := map strip (split_char (CHR '';'') (folder_name env)) ! 1,
                    side := map strip (split_char (CHR '';'') (folder_name env)) ! 2\<rparr>
             else p"
  have "fst (open_csv env ?p1) = Inl e"
    using assms(3) open_csv_fst [of env ?p1 q] by simp
  then obtain p2 where "open_csv env ?p1 = (Inl e, p2)"
    by (cases "open_csv env ?p1") simp
  then show ?thesis
    using assms(1,2) by (simp add: run_def Let_def)
qed

lemma run_build_fails:
  assumes "root_is_dir env" and "mkdir_error env = None"
      and "fst (open_csv env q) = Inr records" and "build_output_rows records = Inl e"
  shows "fst (run env p) = Inl e \<and> snd (snd (run env p)) = NotWritten"
proof -
  let ?p1 = "if 3 \<le> length (map strip (split_char (CHR '';'') (folder_name env)))
             then p\<lparr>job_name := map strip (split_char (CHR '';'') (folder_name env)) ! 0,
                    revision := map strip (split_char (CHR '';'') (folder_name env)) ! 1,
                    side := map strip (split_char (CHR '';'') (folder_name env)) ! 2\<rparr>
             else p"
  have "fst (open_csv env ?p1) = Inr records"
    using assms(3) open_csv_fst [of env ?p1 q] by simp
  then obtain p2 where "open_csv env ?p1 = (Inr records, p2)"
    by (cases "open_csv env ?p1") simp
  then show ?thesis
    using assms(1,2,4) by (simp add: run_def Let_def)
qed

lemma run_writes:
  assumes "root_is_dir env" and "mkdir_error env = None"
      and "fst (open_csv env q) = Inr records" and "build_output_rows records = Inr rows"
  shows "\<exists>p2. fst (run env p) = fst (write_excel env p2 rows) \<and>
              snd (snd (run env p)) = snd (write_excel env p2 rows)"
proof -
  let ?p1 = "if 3 \<le> length (map strip (split_char (CHR '';'') (folder_name env)))
             then p\<lparr>job_name := map strip (split_char (CHR '';'') (folder_name env)) ! 0,
                    revision := map strip (split_char (CHR '';'') (folder_name env)) ! 1,
                    side := map strip (split_char (CHR '';'') (folder_name env)) ! 2\<rparr>
             else p"
  have "fst (open_csv env ?p1) = Inr records"
    using assms(3) open_csv_fst [of env ?p1 q] by simp
  then obtain p2 where "open_csv env ?p1 = (Inr records, p2)"
    by (cases "open_csv env ?p1") simp
  then have "fst (run env p) = fst (write_excel env p2 rows) \<and>
             snd (snd (run env p)) = snd (write_excel env p2 rows)"
    using assms(1,2,4) by (simp add: run_def Let_def split: prod.splits)
  then show ?thesis ..
qed

lemma run_cases:
  "(\<exists>e. fst (run env p) = Inl e \<and> snd (snd (run env p)) = NotWritten) \<or>
   (\<exists>p2 rows. fst (run env p) = fst (write_excel env p2 rows) \<and>
               snd (snd (run env p)) = snd (write_excel env p2 rows))"
proof (cases "root_is_dir env \<and> mkdir_error env = None")
  case False
  then show ?thesis by (auto simp: run_def Let_def)
next
  case True
  show ?thesis
  proof (cases "fst (open_csv env p)")
    case (Inl e)
    with True run_read_fails [of env p e p] show ?thesis by blast
  next
    case (Inr records)
    show ?thesis
    proof (cases "build_output_rows records")
      case (Inl e)
      with True Inr run_build_fails [of env p records e p] show ?thesis by blast
    next
      case r: (Inr rows)
      with True Inr run_writes [of env p records rows p] show ?thesis by blast
    qed
  qed
qed

lemma write_excel_images_found:
  "fst (write_excel env p rows) = Inr res \<Longrightarrow>
   \<exists>stems. collect_image_stems env = Inr stems \<and> images_found res = length stems"
  by (auto simp: write_excel_def Let_def split: option.splits sum.splits save_result.splits)

lemma write_excel_fails:
  "fst (write_excel env p rows) = Inl e \<Longrightarrow>
   snd (write_excel env p rows) = NotWritten \<or>
   (snd (write_excel env p rows) = WriteFailed \<and>
    (\<exists>exc. save env = SaveOSError exc \<and> e = PolarityAppError (save_msg exc) \<or>
           save env = SaveOtherError exc \<and> e = UnexpectedError exc)) \<or>
   (\<exists>ws exc. snd (write_excel env p rows) = Written ws \<and> save env = Saved \<and>
             listing_error env = Some exc \<and> e = UnexpectedError exc)"
  by (auto simp: write_excel_def Let_def collect_image_stems_def
           split: option.splits sum.splits save_result.splits)

lemma collect_image_stems_count:
  "collect_image_stems env = Inr stems \<Longrightarrow>
   length stems = (case images_dir env of None \<Rightarrow> 0 | Some entries \<Rightarrow> length (filter snd entries))"
  by (auto simp: collect_image_stems_def split: option.splits)

lemma write_excel_succeeds:
  assumes "Workbook_avail env" and "XLImage_avail env"
      and "\<And>name. probe_error env name = None"
      and "\<And>name. is_file env name \<Longrightarrow> image_error env name = None"
      and "save env = Saved" and "listing_error env = None"
      and "\<And>val. cell_error env val = None"
  shows "\<exists>ws. write_excel env p rows =
           (Inr \<lparr>output_path = (case output_path_arg env of
                                   None \<Rightarrow> default_output_path env | Some path \<Rightarrow> path),
                  rows_written = length rows,
                  images_found = (case images_dir env of
                                    None \<Rightarrow> 0 | Some entries \<Rightarrow> length (filter snd entries))\<rparr>,
            Written ws)"
proof -
  let ?base = "write_table rows (write_header (write_form p \<lparr>cells = Map.empty, images = []\<rparr>))"
  have "\<exists>ws'. embed_images env data_start_row rows ?base = Inr ws'"
    using assms(3,4) by (rule embed_images_total)
  then obtain ws' where "embed_images env data_start_row rows ?base = Inr ws'" ..
  then have "insert_images env rows ?base = Inr (if rows = [] then ?base else ws')"
    using assms(2) by (simp add: insert_images_def ensure_image_support_def)
  moreover have "first_refused env (written_values p rows) = None"
    using assms(7) by (rule first_refused_none)
  ultimately show ?thesis
    using assms(1,5,6)
    by (simp add: write_excel_def ensure_workbook_available_def Let_def collect_image_stems_def
             split: option.splits)
qed

subsection \<open>The count of images\<close>

text \<open>
  C10. In every run that succeeds, the number of images reported is the number of regular
  files in the IMAGES directory, whatever their names and whether or not an image was
  embedded for a row; it is 0 when the directory does not exist.
\<close>

theorem images_found_counts_files:
  assumes "fst (run env p) = Inr res"
  shows "images_found res =
           (case images_dir env of None \<Rightarrow> 0 | Some entries \<Rightarrow> length (filter snd entries))"
proof -
  from run_cases [of env p] assms
  obtain p2 rows where "fst (write_excel env p2 rows) = Inr res" by auto
  then obtain stems where "collect_image_stems env = Inr stems" "images_found res = length stems"
    using write_excel_images_found by blast
  then show ?thesis
    using collect_image_stems_count by simp
qed

text \<open>
  The sample run reports two images (a picture and a text file; the subdirectory is not
  counted); with no IMAGES directory it reports none.
\<close>

lemma example_run_succeeds:
  assumes "root_is_dir env" and "mkdir_error env = None"
      and "feeder_is_file env = feeder_is_file example_env" and "read_csv env = read_csv example_env"
      and "Workbook_avail env" and "XLImage_avail env"
      and "\<And>name. probe_error env name = None"
      and "\<And>name. is_file env name \<Longrightarrow> image_error env name = None"
      and "save env = Saved" and "listing_error env = None"
      and "\<And>val. cell_error env val = None"
  shows "\<exists>res ws. fst (run env new_processor) = Inr res \<and> rows_written res = 2 \<and>
                  snd (snd (run env new_processor)) = Written ws"
proof -
  let ?rows = "[output_row (example_records ! 0) True, output_row (example_records ! 2) True]"
  have "fst (open_csv env new_processor) = Inr example_records"
    using open_csv_cong [OF assms(3,4)] example_open_csv by simp
  from run_writes [OF assms(1,2) this example_build, of new_processor]
  obtain p2 where p2: "fst (run env new_processor) = fst (write_excel env p2 ?rows)"
      "snd (snd (run env new_processor)) = snd (write_excel env p2 ?rows)" by blast
  from write_excel_succeeds [OF assms(5,6,7,8,9,10,11), of p2 ?rows] p2
  show ?thesis by auto
qed

theorem images_found_counts_files_witness:
  "(\<exists>res. fst (run example_env new_processor) = Inr res \<and> images_found res = 2) \<and>
   (\<exists>res. fst (run (example_env\<lparr>images_dir := None\<rparr>) new_processor) = Inr res \<and>
          images_found res = 0)"
proof -
  obtain res where res: "fst (run example_env new_processor) = Inr res"
    using example_run_succeeds [of example_env] by (auto simp: example_env_def)
  obtain res' where res': "fst (run (example_env\<lparr>images_dir := None\<rparr>) new_processor) = Inr res'"
    using example_run_succeeds [of "example_env\<lparr>images_dir := None\<rparr>"]
    by (auto simp: example_env_def)
  have "images_found res = 2"
    using images_found_counts_files [OF res] by (simp add: example_env_def)
  moreover have "images_found res' = 0"
    using images_found_counts_files [OF res'] by simp
  ultimately show ?thesis using res res' by blast
qed

subsection \<open>Missing columns, and failures before the final write\<close>

lemma run_failure_writes_nothing:
  assumes "fst (run env p) = Inl e"
  shows "snd (snd (run env p)) = NotWritten \<or>
         (snd (snd (run env p)) = WriteFailed \<and>
          (\<exists>exc. save env = SaveOSError exc \<and> e = PolarityAppError (save_msg exc) \<or>
                 save env = SaveOtherError exc \<and> e = UnexpectedError exc)) \<or>
         (\<exists>ws exc. snd (snd (run env p)) = Written ws \<and> save env = Saved \<and>
                   listing_error env = Some exc \<and> e = UnexpectedError exc)"
proof -
  from run_cases [of env p] show ?thesis
  proof
    assume "\<exists>e. fst (run env p) = Inl e \<and> snd (snd (run env p)) = NotWritten"
    then show ?thesis by auto
  next
    assume "\<exists>p2 rows. fst (run env p) = fst (write_excel env p2 rows) \<and>
                        snd (snd (run env p)) = snd (write_excel env p2 rows)"
    then obtain p2 rows where w: "fst (run env p) = fst (write_excel env p2 rows)"
        "snd (snd (run env p)) = snd (write_excel env p2 rows)" by blast
    with assms have "fst (write_excel env p2 rows) = Inl e" by simp
    from write_excel_fails [OF this] w(2) show ?thesis by simp
  qed
qed

lemma open_csv_rows:
  assumes "feeder_is_file env"
      and "read_csv env Utf8Sig = Rows rows \<or>
           (read_csv env Utf8Sig = DecodeError \<and> read_csv env Latin1 = Rows rows)"
  shows "open_csv env p = parse_rows p rows"
  using assms by (auto simp: open_csv_def)

text \<open>
  C7. When the header row (the third row of the file, its cells trimmed) lacks some of the
  11 required columns, the run fails with the error whose message lists the missing
  columns, those and no others, in the order of the required columns, and no workbook is
  written. Moreover a failing run has written nothing unless it failed at the final write
  or after it: either the save was not reached; or the save itself raised, and the error
  is the one of the save; or the save succeeded and the listing of the images that follows
  it failed.
\<close>

theorem missing_columns_reported:
  assumes "root_is_dir env" and "mkdir_error env = None" and "feeder_is_file env"
      and "read_csv env Utf8Sig = Rows (row0 # row1 # row2 # data_rows) \<or>
           (read_csv env Utf8Sig = DecodeError \<and>
            read_csv env Latin1 = Rows (row0 # row1 # row2 # data_rows))"
      and "missing = filter (\<lambda>h. h \<notin> set (map strip row2)) REQUIRED_FEEDER_COLUMNS"
      and "missing \<noteq> []"
  shows "fst (run env p) = Inl (PolarityAppError (missing_columns_msg missing)) \<and>
         snd (snd (run env p)) = NotWritten \<and>
         set missing = set REQUIRED_FEEDER_COLUMNS - set (map strip row2) \<and>
         distinct missing \<and> length REQUIRED_FEEDER_COLUMNS = 11 \<and>
         (\<forall>env' p' e. fst (run env' p') = Inl e \<longrightarrow>
            snd (snd (run env' p')) = NotWritten \<or>
            (snd (snd (run env' p')) = WriteFailed \<and>
             (\<exists>exc. save env' = SaveOSError exc \<and> e = PolarityAppError (save_msg exc) \<or>
                    save env' = SaveOtherError exc \<and> e = UnexpectedError exc)) \<or>
            (\<exists>ws exc. snd (snd (run env' p')) = Written ws \<and> save env' = Saved \<and>
                      listing_error env' = Some exc \<and> e = UnexpectedError exc))"
proof -
  have "open_csv env p = parse_rows p (row0 # row1 # row2 # data_rows)"
    using assms(3,4) by (rule open_csv_rows)
  then have "fst (open_csv env p) = Inl (PolarityAppError (missing_columns_msg missing))"
    using assms(5,6) by (simp add: validate_headers_def Let_def)
  from run_read_fails [OF assms(1,2) this]
  have a: "fst (run env p) = Inl (PolarityAppError (missing_columns_msg missing)) \<and>
           snd (snd (run env p)) = NotWritten" .
  have b: "set missing = set REQUIRED_FEEDER_COLUMNS - set (map strip row2)"
    unfolding assms(5) by auto
  have d: "distinct REQUIRED_FEEDER_COLUMNS" by (simp add: REQUIRED_FEEDER_COLUMNS_def)
  then have c: "distinct missing" unfolding assms(5) by (rule distinct_filter)
  have l: "length REQUIRED_FEEDER_COLUMNS = 11" by (simp add: REQUIRED_FEEDER_COLUMNS_def)
  from a b c l run_failure_writes_nothing show ?thesis by blast
qed

text \<open>A header row without FeederType and QTY; the Location header has blanks around it.\<close>

theorem missing_columns_reported_witness:
  "fst (run (example_env\<lparr>read_csv := (\<lambda>encoding. Rows example_short_csv)\<rparr>) new_processor)
     = Inl (PolarityAppError ''Required columns are missing in FeederSetup.csv: FeederType, QTY'') \<and>
   snd (snd (run (example_env\<lparr>read_csv := (\<lambda>encoding. Rows example_short_csv)\<rparr>) new_processor))
     = NotWritten"
proof -
  let ?env = "example_env\<lparr>read_csv := (\<lambda>encoding. Rows example_short_csv)\<rparr>"
  let ?row2 = "[''ModuleNumber'', ''SideNo'', '' Location '', ''PartNumber'', ''PartComment'',
       ''PackageName'', ''PartShapeName'', ''TapeWidth'', ''FeedPitch'']"
  have m: "[''FeederType'', ''QTY''] = filter (\<lambda>h. h \<notin> set (map strip ?row2)) REQUIRED_FEEDER_COLUMNS"
    by (simp add: REQUIRED_FEEDER_COLUMNS_def text_defs)
  have r: "read_csv ?env Utf8Sig =
             Rows ([''Job''] # [''J1''] # ?row2 #
                   [[''1'', ''0'', ''5'', ''PN1'', ''cap'', ''PK1'', ''RC_R0402'', ''8'', ''4'']]) \<or>
           (read_csv ?env Utf8Sig = DecodeError \<and>
            read_csv ?env Latin1 =
              Rows ([''Job''] # [''J1''] # ?row2 #
                    [[''1'', ''0'', ''5'', ''PN1'', ''cap'', ''PK1'', ''RC_R0402'', ''8'', ''4'']]))"
    by (simp add: example_short_csv_def)
  have "root_is_dir ?env" "mkdir_error ?env = None" "feeder_is_file ?env"
    by (simp_all add: example_env_def)
  from missing_columns_reported [OF this r m, of new_processor]
  show ?thesis by (simp add: missing_columns_msg_def)
qed

subsection \<open>The line name\<close>

lemma first_index_filter:
  "first_index P i xs =
     (case filter (\<lambda>j. P (xs ! j)) [0..<length xs] of [] \<Rightarrow> None | j # js \<Rightarrow> Some (i + j))"
proof (induction xs arbitrary: i)
  case Nil
  then show ?case by simp
next
  case (Cons x xs)
  have u: "[0..<length (x # xs)] = 0 # map Suc [0..<length xs]"
    by (simp add: upt_conv_Cons map_Suc_upt del: upt_Suc)
  have f: "filter (\<lambda>j. P ((x # xs) ! j)) (map Suc [0..<length xs])
             = map Suc (filter (\<lambda>j. P (xs ! j)) [0..<length xs])"
    by (simp add: filter_map o_def)
  show ?case
    unfolding u by (simp add: f Cons.IH split: list.splits del: upt_Suc)
qed

lemma norm_strip: "norm (strip h) = norm h"
  by (simp add: norm_def strip_idem)

lemma rstrip_chars_shape: "\<exists>b. t = rstrip_chars cs t @ b \<and> set b \<subseteq> set cs"
proof -
  let ?P = "\<lambda>c. c \<in> set cs"
  have "rev t = takeWhile ?P (rev t) @ dropWhile ?P (rev t)" by simp
  then have "t = rev (dropWhile ?P (rev t)) @ rev (takeWhile ?P (rev t))"
    by (metis rev_append rev_rev_ident)
  moreover have "set (rev (takeWhile ?P (rev t))) \<subseteq> set cs" by (auto dest: set_takeWhileD)
  ultimately show ?thesis unfolding rstrip_chars_def by blast
qed

lemma rstrip_colons_line:
  "rstrip_chars '':'' (''line'' @ replicate k (CHR '':'')) = ''line''"
proof -
  have "rev (''line'' @ replicate k (CHR '':'')) = replicate k (CHR '':'') @ ''enil''"
    by simp
  moreover have "dropWhile (\<lambda>c. c \<in> set '':'') (replicate k (CHR '':'') @ ''enil'') = ''enil''"
    by (induction k) simp_all
  ultimately show ?thesis by (simp add: rstrip_chars_def)
qed

lemma norm_line_iff:
  "(norm h = ''line'') = (\<exists>k. py_lower (strip h) = ''line'' @ replicate k (CHR '':''))"
proof
  assume n: "norm h = ''line''"
  obtain b where b: "py_lower (strip h) = rstrip_chars '':'' (py_lower (strip h)) @ b"
      "set b \<subseteq> set '':''"
    using rstrip_chars_shape by blast
  from b(2) have "replicate (length b) (CHR '':'') = b"
    by (intro replicate_length_same) auto
  with b(1) n have "py_lower (strip h) = ''line'' @ replicate (length b) (CHR '':'')"
    by (simp add: norm_def)
  then show "\<exists>k. py_lower (strip h) = ''line'' @ replicate k (CHR '':'')" ..
next
  assume "\<exists>k. py_lower (strip h) = ''line'' @ replicate k (CHR '':'')"
  then obtain k where "py_lower (strip h) = ''line'' @ replicate k (CHR '':'')" ..
  then show "norm h = ''line''"
    by (simp only: norm_def rstrip_colons_line)
qed

lemma extract_line_name_eq:
  assumes "labels = filter (\<lambda>i. norm (row0 ! i) = ''line'') [0..<length row0]"
  shows "extract_line_name row0 row1 prior =
           (if labels \<noteq> [] \<and> hd labels < length row1 then strip (row1 ! hd labels)
            else if 8 \<le> length row1 then strip (row1 ! 7) else prior)"
proof -
  have "filter (\<lambda>j. norm (map strip row0 ! j) = ''line'') [0..<length (map strip row0)] = labels"
    unfolding assms by (rule filter_cong) (simp_all add: norm_strip)
  then have "first_index (\<lambda>h. norm h = ''line'') 0 (map strip row0)
               = (case labels of [] \<Rightarrow> None | j # js \<Rightarrow> Some j)"
    by (simp add: first_index_filter [of "\<lambda>h. norm h = ''line''" 0 "map strip row0"]
             split: list.splits)
  then show ?thesis
    by (cases labels) (simp_all add: extract_line_name_def Let_def)
qed

text \<open>
  C9, as amended. A cell of the first row is a label of the line when, trimmed and in
  lower case, it is "line" followed by any number of colons. If the first row has such a
  cell and the second row has a cell in the column of the first of them, the line name is
  that cell, trimmed. Otherwise (no label, or a second row too short for the label's
  column), the line name is the trimmed cell at index 7 of the second row when that row
  has at least 8 cells, and stays as it was when it has fewer. The extraction never aborts
  the run: what the reader returns or raises does not depend on the first two rows.
\<close>

theorem line_name_extraction:
  assumes "labels = filter (\<lambda>i. norm (row0 ! i) = ''line'') [0..<length row0]"
  shows "extract_line_name row0 row1 prior =
           (if labels \<noteq> [] \<and> hd labels < length row1 then strip (row1 ! hd labels)
            else if 8 \<le> length row1 then strip (row1 ! 7) else prior) \<and>
         (\<forall>h. (norm h = ''line'') = (\<exists>k. py_lower (strip h) = ''line'' @ replicate k (CHR '':''))) \<and>
         line_name (snd (parse_rows p (row0 # row1 # row2 # data_rows)))
           = extract_line_name row0 row1 (line_name p) \<and>
         fst (parse_rows p (row0 # row1 # row2 # data_rows))
           = fst (parse_rows p' (row0' # row1' # row2 # data_rows))"
proof -
  have "line_name (snd (parse_rows p (row0 # row1 # row2 # data_rows)))
          = extract_line_name row0 row1 (line_name p)"
    by (simp add: Let_def split: option.splits)
  moreover have "fst (parse_rows p (row0 # row1 # row2 # data_rows))
                   = fst (parse_rows p' (row0' # row1' # row2 # data_rows))"
    by (simp add: Let_def split: option.splits)
  ultimately show ?thesis
    using extract_line_name_eq [OF assms] norm_line_iff by blast
qed

text \<open>A label with a colon; no label and nine cells; no label and two cells.\<close>

theorem line_name_extraction_witness:
  "extract_line_name [''Job'', ''Rev'', ''Line:''] [''J1'', ''A'', '' L5 ''] [] = ''L5'' \<and>
   extract_line_name [''Job'', ''Rev''] [''J1'', ''A'', ''c'', ''d'', ''e'', ''f'', ''g'', '' H2 '', ''i''] [] = ''H2'' \<and>
   extract_line_name [''Job'', ''Rev''] [''J1'', ''A''] ''before'' = ''before''"
  using line_name_extraction [OF refl, where ?row0.0 = "[''Job'', ''Rev'', ''Line:'']"
          and ?row1.0 = "[''J1'', ''A'', '' L5 '']" and prior = "[]"]
        line_name_extraction [OF refl, where ?row0.0 = "[''Job'', ''Rev'']"
          and ?row1.0 = "[''J1'', ''A'', ''c'', ''d'', ''e'', ''f'', ''g'', '' H2 '', ''i'']" and prior = "[]"]
        line_name_extraction [OF refl, where ?row0.0 = "[''Job'', ''Rev'']"
          and ?row1.0 = "[''J1'', ''A'']" and prior = "''before''"]
  by (simp add: norm_def rstrip_chars_def py_lower_def lower_char_def upper_letters_def
        lower_letters_def text_defs)

text \<open>
  C9 as stated fails: the first row has the label "Line" in its ninth cell, the second row
  has eight cells, and the line name is the cell at index 7 of the second row.
\<close>

theorem line_label_counterexample:
  "norm ([''Job'', [], [], [], [], [], [], [], ''Line''] ! 8) = ''line'' \<and>
   extract_line_name [''Job'', [], [], [], [], [], [], [], ''Line'']
     [''J1'', [], [], [], [], [], [], ''H2''] [] = ''H2''"
  by (simp add: extract_line_name_def norm_def rstrip_chars_def py_lower_def lower_char_def
        upper_letters_def lower_letters_def text_defs)

subsection \<open>Image support and an empty images folder\<close>














lemma build_rows_nonempty: "build_output_rows records = Inr rows \<Longrightarrow> rows \<noteq> []"
  by (auto simp: build_output_rows_def Let_def output_loop_eq split: if_splits)





end
